theory Spec2Isabelle
  imports Main "HOL-Library.Word"
begin

unbundle bit_operations_syntax

section \<open>Values of the Python program\<close>

text \<open>
  A Python \<open>bytes\<close> object is a list of 8-bit words. A Python \<open>str\<close> is a sequence of
  Unicode code points (lone surrogates included, as Python allows them), modelled as a
  list of natural numbers. \<open>asc\<close> turns an ASCII literal into such a string.
\<close>

type_synonym byte = "8 word"
type_synonym pystr = "nat list"

definition asc :: "string \<Rightarrow> pystr" where
  "asc s = map of_char s"

section \<open>hashlib.sha256\<close>

text \<open>
  The digest function of FIPS 180-4, which \<open>hashlib.sha256\<close> computes. The hash object
  itself is modelled by its documented contract: it holds the bytes fed to it so far
  (\<open>update\<close> appends, repeated calls being equivalent to one call with the
  concatenation), and \<open>hexdigest\<close> renders the digest of these bytes.
\<close>

type_synonym word32 = "32 word"

definition Ch :: "word32 \<Rightarrow> word32 \<Rightarrow> word32 \<Rightarrow> word32" where
  "Ch x y z = (x AND y) XOR (NOT x AND z)"

definition Maj :: "word32 \<Rightarrow> word32 \<Rightarrow> word32 \<Rightarrow> word32" where
  "Maj x y z = (x AND y) XOR (x AND z) XOR (y AND z)"

definition bsig0 :: "word32 \<Rightarrow> word32" where
  "bsig0 x = word_rotr 2 x XOR word_rotr 13 x XOR word_rotr 22 x"

definition bsig1 :: "word32 \<Rightarrow> word32" where
  "bsig1 x = word_rotr 6 x XOR word_rotr 11 x XOR word_rotr 25 x"

definition ssig0 :: "word32 \<Rightarrow> word32" where
  "ssig0 x = word_rotr 7 x XOR word_rotr 18 x XOR drop_bit 3 x"

definition ssig1 :: "word32 \<Rightarrow> word32" where
  "ssig1 x = word_rotr 17 x XOR word_rotr 19 x XOR drop_bit 10 x"

definition sha256_K :: "word32 list" where
  "sha256_K =
    [0x428A2F98, 0x71374491, 0xB5C0FBCF, 0xE9B5DBA5, 0x3956C25B, 0x59F111F1, 0x923F82A4, 0xAB1C5ED5,
     0xD807AA98, 0x12835B01, 0x243185BE, 0x550C7DC3, 0x72BE5D74, 0x80DEB1FE, 0x9BDC06A7, 0xC19BF174,
     0xE49B69C1, 0xEFBE4786, 0x0FC19DC6, 0x240CA1CC, 0x2DE92C6F, 0x4A7484AA, 0x5CB0A9DC, 0x76F988DA,
     0x983E5152, 0xA831C66D, 0xB00327C8, 0xBF597FC7, 0xC6E00BF3, 0xD5A79147, 0x06CA6351, 0x14292967,
     0x27B70A85, 0x2E1B2138, 0x4D2C6DFC, 0x53380D13, 0x650A7354, 0x766A0ABB, 0x81C2C92E, 0x92722C85,
     0xA2BFE8A1, 0xA81A664B, 0xC24B8B70, 0xC76C51A3, 0xD192E819, 0xD6990624, 0xF40E3585, 0x106AA070,
     0x19A4C116, 0x1E376C08, 0x2748774C, 0x34B0BCB5, 0x391C0CB3, 0x4ED8AA4A, 0x5B9CCA4F, 0x682E6FF3,
     0x748F82EE, 0x78A5636F, 0x84C87814, 0x8CC70208, 0x90BEFFFA, 0xA4506CEB, 0xBEF9A3F7, 0xC67178F2]"

definition sha256_H0 :: "word32 list" where
  "sha256_H0 =
    [0x6A09E667, 0xBB67AE85, 0x3C6EF372, 0xA54FF53A, 0x510E527F, 0x9B05688C, 0x1F83D9AB, 0x5BE0CD19]"

text \<open>Padding: a 1 bit, zero bits up to 56 modulo 64 bytes, the bit length on 64 bits.\<close>

definition be_bytes64 :: "64 word \<Rightarrow> byte list" where
  "be_bytes64 w = map (\<lambda>i. ucast (drop_bit (8 * i) w)) [7, 6, 5, 4, 3, 2, 1, 0]"

definition sha256_pad :: "byte list \<Rightarrow> byte list" where
  "sha256_pad m =
     m @ [0x80] @ replicate ((119 - length m mod 64) mod 64) 0 @ be_bytes64 (of_nat (8 * length m))"

fun be_words :: "byte list \<Rightarrow> word32 list" where
  "be_words (a # b # c # d # bs) =
     (push_bit 24 (ucast a) OR push_bit 16 (ucast b) OR push_bit 8 (ucast c) OR ucast d) # be_words bs"
| "be_words _ = []"

fun schedule :: "nat \<Rightarrow> word32 list \<Rightarrow> word32 list" where
  "schedule 0 ws = ws"
| "schedule (Suc n) ws =
     (let t = length ws in
      schedule n (ws @ [ssig1 (ws ! (t - 2)) + ws ! (t - 7) + ssig0 (ws ! (t - 15)) + ws ! (t - 16)]))"

fun sha256_round :: "word32 list \<Rightarrow> word32 \<times> word32 \<Rightarrow> word32 list" where
  "sha256_round [a, b, c, d, e, f, g, h] (k, w) =
     (let t1 = h + bsig1 e + Ch e f g + k + w;
          t2 = bsig0 a + Maj a b c
      in [t1 + t2, a, b, c, d + t1, e, f, g])"
| "sha256_round s _ = s"

definition sha256_block :: "word32 list \<Rightarrow> byte list \<Rightarrow> word32 list" where
  "sha256_block hs blk =
     map2 (+) hs (foldl sha256_round hs (zip sha256_K (schedule 48 (be_words blk))))"

fun sha256_blocks :: "nat \<Rightarrow> word32 list \<Rightarrow> byte list \<Rightarrow> word32 list" where
  "sha256_blocks 0 hs bs = hs"
| "sha256_blocks (Suc n) hs bs = sha256_blocks n (sha256_block hs (take 64 bs)) (drop 64 bs)"

definition sha256 :: "byte list \<Rightarrow> word32 list" where
  "sha256 m = (let p = sha256_pad m in sha256_blocks (length p div 64) sha256_H0 p)"

definition hex_digit :: "nat \<Rightarrow> nat" where
  "hex_digit d = (if d < 10 then 48 + d else 87 + d)"

definition hex32 :: "word32 \<Rightarrow> pystr" where
  "hex32 w = map (\<lambda>i. hex_digit (unat (drop_bit (4 * i) w AND 0xF))) [7, 6, 5, 4, 3, 2, 1, 0]"

definition hex_of_words :: "word32 list \<Rightarrow> pystr" where
  "hex_of_words ws = concat (map hex32 ws)"

record sha256_object =
  fed :: "byte list"

definition hashlib_sha256 :: sha256_object where
  "hashlib_sha256 = \<lparr>fed = []\<rparr>"

definition sha_update :: "sha256_object \<Rightarrow> byte list \<Rightarrow> sha256_object" where
  "sha_update h bs = h\<lparr>fed := fed h @ bs\<rparr>"

definition hexdigest :: "sha256_object \<Rightarrow> pystr" where
  "hexdigest h = hex_of_words (sha256 (fed h))"

section \<open>posixpath\<close>

text \<open>
  The functions of \<open>os.path\<close> the program calls, as \<open>posixpath\<close> defines them on
  strings (separator \<open>/\<close>, code point 47; \<open>.\<close> is 46).
\<close>

fun py_split :: "nat \<Rightarrow> pystr \<Rightarrow> pystr list" where
  "py_split c [] = [[]]"
| "py_split c (x # xs) =
     (if x = c then [] # py_split c xs
      else (case py_split c xs of [] \<Rightarrow> [[x]] | p # ps \<Rightarrow> (x # p) # ps))"

fun py_join :: "pystr \<Rightarrow> pystr list \<Rightarrow> pystr" where
  "py_join j [] = []"
| "py_join j [p] = p"
| "py_join j (p # q # ps) = p @ j @ py_join j (q # ps)"

definition startswith :: "pystr \<Rightarrow> pystr \<Rightarrow> bool" where
  "startswith s p = (take (length p) s = p)"

definition endswith :: "pystr \<Rightarrow> pystr \<Rightarrow> bool" where
  "endswith s p = (length p \<le> length s \<and> drop (length s - length p) s = p)"

definition path_join :: "pystr \<Rightarrow> pystr \<Rightarrow> pystr" where
  "path_join a b =
     (if startswith b [47] then b
      else if a = [] \<or> endswith a [47] then a @ b
      else a @ [47] @ b)"

definition basename :: "pystr \<Rightarrow> pystr" where
  "basename p = rev (takeWhile (\<lambda>c. c \<noteq> 47) (rev p))"

definition rstrip_sep :: "pystr \<Rightarrow> pystr" where
  "rstrip_sep p = rev (dropWhile (\<lambda>c. c = 47) (rev p))"

definition dirname :: "pystr \<Rightarrow> pystr" where
  "dirname p =
     (let head = rev (dropWhile (\<lambda>c. c \<noteq> 47) (rev p))
      in if head \<noteq> [] \<and> head \<noteq> replicate (length head) 47 then rstrip_sep head else head)"

fun norm_comps :: "bool \<Rightarrow> pystr list \<Rightarrow> pystr list \<Rightarrow> pystr list" where
  "norm_comps rooted new_comps [] = new_comps"
| "norm_comps rooted new_comps (part # comps) =
     (if part = [] \<or> part = [46] then norm_comps rooted new_comps comps
      else if part \<noteq> [46, 46] \<or> (\<not> rooted \<and> new_comps = [])
                \<or> (new_comps \<noteq> [] \<and> last new_comps = [46, 46])
        then norm_comps rooted (new_comps @ [part]) comps
      else if new_comps \<noteq> [] then norm_comps rooted (butlast new_comps) comps
      else norm_comps rooted new_comps comps)"

definition normpath :: "pystr \<Rightarrow> pystr" where
  "normpath path =
     (if path = [] then [46]
      else
        let initial_slashes =
              (if startswith path [47]
               then (if startswith path [47, 47] \<and> \<not> startswith path [47, 47, 47] then 2 else 1)
               else (0::nat));
            comps = norm_comps (initial_slashes \<noteq> 0) [] (py_split 47 path);
            joined = replicate initial_slashes 47 @ py_join [47] comps
        in if joined = [] then [46] else joined)"

definition abspath :: "pystr \<Rightarrow> pystr \<Rightarrow> pystr" where
  "abspath getcwd path =
     normpath (if startswith path [47] then path else path_join getcwd path)"

fun commonprefix_len :: "pystr list \<Rightarrow> pystr list \<Rightarrow> nat" where
  "commonprefix_len (x # xs) (y # ys) = (if x = y then Suc (commonprefix_len xs ys) else 0)"
| "commonprefix_len _ _ = 0"

datatype py_error =
    FileNotFoundError | IsADirectoryError | NotADirectoryError | PermissionError
  | FileExistsError | SameFileError | UnicodeDecodeError | UnicodeEncodeError | ValueError
  | AttributeError | TypeError | KeyError

definition relpath :: "pystr \<Rightarrow> pystr \<Rightarrow> pystr \<Rightarrow> py_error + pystr" where
  "relpath getcwd path start =
     (if path = [] then Inl ValueError
      else
        let start_list = filter (\<lambda>x. x \<noteq> []) (py_split 47 (abspath getcwd start));
            path_list = filter (\<lambda>x. x \<noteq> []) (py_split 47 (abspath getcwd path));
            i = commonprefix_len start_list path_list;
            rel_list = replicate (length start_list - i) [46, 46] @ drop i path_list
        in if rel_list = [] then Inr [46]
           else Inr (foldl path_join (hd rel_list) (tl rel_list)))"

section \<open>The world outside the program\<close>

text \<open>
  The file store maps absolute, normalised paths to nodes; a path given to a system call
  is resolved against the current directory first. A regular file has its bytes and two
  permission flags (may be read, may be written). Symbolic links are not modelled.
  \<open>os.walk\<close> is a generator of the operating system: the sequence of
  \<open>(root, dirs, files)\<close> triples it yields for a top directory is part of the world, and
  nothing relates it to the file store (a listed file may be gone when it is read).
  The root directory always exists.
  \<open>clock\<close> is the sequence of values of \<open>datetime.now().isoformat()\<close>, \<open>ticks\<close> the
  number of calls made so far. What \<open>print\<close> writes is kept as a list of lines, each an
  event with its arguments rather than its formatted text; the elapsed time of the
  summary, a floating-point number, is left out.
\<close>

datatype node = Dir | File "byte list" bool bool

datatype line =
    CorruptedWarning
  | BackupLine pystr
  | SkipLine pystr
  | BackupSummary pystr pystr nat nat nat
  | NoManifestFound
  | IntegrityReport nat nat nat
  | MissingFiles "pystr list"
  | HashMismatches "pystr list"
  | AllPassed
  | SourceMissing pystr

record world =
  fs :: "pystr \<rightharpoonup> node"
  cwd :: pystr
  os_walk :: "pystr \<Rightarrow> (pystr \<times> pystr list \<times> pystr list) list"
  clock :: "nat \<Rightarrow> pystr"
  ticks :: nat
  stdout :: "line list"

definition is_root :: "pystr \<Rightarrow> bool" where
  "is_root q = (q \<noteq> [] \<and> set q \<subseteq> {47})"

definition stat :: "world \<Rightarrow> pystr \<Rightarrow> node option" where
  "stat w p =
     (if p = [] then None
      else if is_root (abspath (cwd w) p) then Some Dir
      else fs w (abspath (cwd w) p))"

definition path_exists :: "world \<Rightarrow> pystr \<Rightarrow> bool" where
  "path_exists w p = (stat w p \<noteq> None)"

definition print :: "line \<Rightarrow> world \<Rightarrow> world" where
  "print l w = w\<lparr>stdout := stdout w @ [l]\<rparr>"

definition open_rb :: "world \<Rightarrow> pystr \<Rightarrow> py_error + byte list" where
  "open_rb w p =
     (case stat w p of
        None \<Rightarrow> Inl FileNotFoundError
      | Some Dir \<Rightarrow> Inl IsADirectoryError
      | Some (File bs r wr) \<Rightarrow> if r then Inr bs else Inl PermissionError)"

section \<open>calculate\_file\_hash\<close>

text \<open>
  \<open>f.read(chunk_size)\<close> returns at most \<open>chunk_size\<close> bytes from the current position, and
  everything that is left when \<open>chunk_size\<close> is negative. The loop feeds each chunk to
  the hash object until a read returns no data.
\<close>

definition f_read :: "int \<Rightarrow> byte list \<Rightarrow> byte list \<times> byte list" where
  "f_read n rest = (if n < 0 then (rest, []) else (take (nat n) rest, drop (nat n) rest))"

function hash_loop :: "int \<Rightarrow> byte list \<Rightarrow> sha256_object \<Rightarrow> sha256_object" where
  "hash_loop chunk_size rest h =
     (let data = fst (f_read chunk_size rest) in
      if data = [] then h
      else hash_loop chunk_size (snd (f_read chunk_size rest)) (sha_update h data))"
  by pat_completeness auto
termination
  by (relation "measure (\<lambda>(n, rest, h). length rest)") (auto simp: f_read_def split: if_splits)

definition calculate_file_hash :: "world \<Rightarrow> pystr \<Rightarrow> int \<Rightarrow> py_error + pystr" where
  "calculate_file_hash w file_path chunk_size =
     (case open_rb w file_path of
        Inl e \<Rightarrow> Inl e
      | Inr bs \<Rightarrow> Inr (hexdigest (hash_loop chunk_size bs hashlib_sha256)))"

definition default_chunk_size :: int where
  "default_chunk_size = 4096"

section \<open>Text files: the UTF-8 codec and universal newlines\<close>

text \<open>
  \<open>open(path, "r", encoding="utf-8").read()\<close> decodes the bytes of the file strictly
  (overlong forms, encoded surrogates and code points above U+10FFFF are refused with
  \<open>UnicodeDecodeError\<close>) and then turns \<open>\r\n\<close> and \<open>\r\<close> into \<open>\n\<close>.
\<close>

definition is_cont :: "byte \<Rightarrow> bool" where
  "is_cont b = (0x80 \<le> b \<and> b \<le> 0xBF)"

definition cont_bits :: "byte \<Rightarrow> nat" where
  "cont_bits b = unat (b AND 0x3F)"

fun utf8_decode :: "byte list \<Rightarrow> pystr option" where
  "utf8_decode [] = Some []"
| "utf8_decode (b # bs) =
     (if b < 0x80 then map_option ((#) (unat b)) (utf8_decode bs)
      else if 0xC2 \<le> b \<and> b \<le> 0xDF then
        (case bs of
           c1 # r \<Rightarrow>
             if is_cont c1
             then map_option ((#) (unat (b AND 0x1F) * 64 + cont_bits c1)) (utf8_decode r)
             else None
         | _ \<Rightarrow> None)
      else if 0xE0 \<le> b \<and> b \<le> 0xEF then
        (case bs of
           c1 # c2 # r \<Rightarrow>
             if is_cont c1 \<and> is_cont c2 \<and> (b = 0xE0 \<longrightarrow> 0xA0 \<le> c1) \<and> (b = 0xED \<longrightarrow> c1 \<le> 0x9F)
             then map_option ((#) (unat (b AND 0x0F) * 4096 + cont_bits c1 * 64 + cont_bits c2))
                    (utf8_decode r)
             else None
         | _ \<Rightarrow> None)
      else if 0xF0 \<le> b \<and> b \<le> 0xF4 then
        (case bs of
           c1 # c2 # c3 # r \<Rightarrow>
             if is_cont c1 \<and> is_cont c2 \<and> is_cont c3
                \<and> (b = 0xF0 \<longrightarrow> 0x90 \<le> c1) \<and> (b = 0xF4 \<longrightarrow> c1 \<le> 0x8F)
             then map_option
                    ((#) (unat (b AND 0x07) * 262144 + cont_bits c1 * 4096 + cont_bits c2 * 64
                          + cont_bits c3))
                    (utf8_decode r)
             else None
         | _ \<Rightarrow> None)
      else None)"

definition is_surrogate :: "nat \<Rightarrow> bool" where
  "is_surrogate c = (0xD800 \<le> c \<and> c \<le> 0xDFFF)"

definition is_high_surrogate :: "nat \<Rightarrow> bool" where
  "is_high_surrogate c = (0xD800 \<le> c \<and> c \<le> 0xDBFF)"

definition is_low_surrogate :: "nat \<Rightarrow> bool" where
  "is_low_surrogate c = (0xDC00 \<le> c \<and> c \<le> 0xDFFF)"

definition utf8_encode_char :: "nat \<Rightarrow> byte list option" where
  "utf8_encode_char c =
     (if c < 0x80 then Some [of_nat c]
      else if c < 0x800 then Some [of_nat (0xC0 + c div 64), of_nat (0x80 + c mod 64)]
      else if is_surrogate c then None
      else if c < 0x10000 then
        Some [of_nat (0xE0 + c div 4096), of_nat (0x80 + c div 64 mod 64), of_nat (0x80 + c mod 64)]
      else if c < 0x110000 then
        Some [of_nat (0xF0 + c div 262144), of_nat (0x80 + c div 4096 mod 64),
              of_nat (0x80 + c div 64 mod 64), of_nat (0x80 + c mod 64)]
      else None)"

fun utf8_encode :: "pystr \<Rightarrow> byte list option" where
  "utf8_encode [] = Some []"
| "utf8_encode (c # cs) =
     (case utf8_encode_char c of
        None \<Rightarrow> None
      | Some bs \<Rightarrow> map_option ((@) bs) (utf8_encode cs))"

fun universal_newlines :: "pystr \<Rightarrow> pystr" where
  "universal_newlines (c # d # cs) =
     (if c = 13 then (if d = 10 then 10 # universal_newlines cs else 10 # universal_newlines (d # cs))
      else c # universal_newlines (d # cs))"
| "universal_newlines [c] = (if c = 13 then [10] else [c])"
| "universal_newlines [] = []"

text \<open>\<open>str.strip()\<close> removes the characters for which \<open>str.isspace\<close> holds at both ends.\<close>

definition py_isspace :: "nat \<Rightarrow> bool" where
  "py_isspace c =
     ((0x09 \<le> c \<and> c \<le> 0x0D) \<or> (0x1C \<le> c \<and> c \<le> 0x20) \<or> c = 0x85 \<or> c = 0xA0 \<or> c = 0x1680
      \<or> (0x2000 \<le> c \<and> c \<le> 0x200A) \<or> c = 0x2028 \<or> c = 0x2029 \<or> c = 0x202F \<or> c = 0x205F
      \<or> c = 0x3000)"

definition strip :: "pystr \<Rightarrow> pystr" where
  "strip s = rev (dropWhile py_isspace (rev (dropWhile py_isspace s)))"

section \<open>The json module\<close>

text \<open>
  A decoded JSON document. An object is a Python \<open>dict\<close>: an association list in
  insertion order, a repeated key keeping its first position and its last value. An
  integer is read to its value and printed in decimal. A float (and the constants
  \<open>NaN\<close>, \<open>Infinity\<close>, \<open>-Infinity\<close>) is represented by the lexeme it was read from; the
  program never computes with one, and the conversion limits of \<open>int\<close> and the
  recursion limit of the interpreter are not modelled.
\<close>

datatype json =
    JNull
  | JBool bool
  | JInt int
  | JFloat pystr
  | JStr pystr
  | JArr "json list"
  | JObj "(pystr \<times> json) list"

fun dict_set :: "('k \<times> 'v) list \<Rightarrow> 'k \<Rightarrow> 'v \<Rightarrow> ('k \<times> 'v) list" where
  "dict_set [] k v = [(k, v)]"
| "dict_set ((k', v') # kvs) k v =
     (if k' = k then (k', v) # kvs else (k', v') # dict_set kvs k v)"

subsection \<open>json.dumps with indent=4 and ensure\_ascii\<close>

definition hex4 :: "nat \<Rightarrow> pystr" where
  "hex4 c = [hex_digit (c div 4096 mod 16), hex_digit (c div 256 mod 16),
             hex_digit (c div 16 mod 16), hex_digit (c mod 16)]"

definition escape_char :: "nat \<Rightarrow> pystr" where
  "escape_char c =
     (if c = 0x22 then [0x5C, 0x22]
      else if c = 0x5C then [0x5C, 0x5C]
      else if c = 0x0A then [0x5C, 0x6E]
      else if c = 0x0D then [0x5C, 0x72]
      else if c = 0x09 then [0x5C, 0x74]
      else if c = 0x08 then [0x5C, 0x62]
      else if c = 0x0C then [0x5C, 0x66]
      else if 0x20 \<le> c \<and> c \<le> 0x7E then [c]
      else if c < 0x10000 then [0x5C, 0x75] @ hex4 c
      else [0x5C, 0x75] @ hex4 (0xD800 + (c - 0x10000) div 1024)
           @ [0x5C, 0x75] @ hex4 (0xDC00 + (c - 0x10000) mod 1024))"

definition encode_basestring_ascii :: "pystr \<Rightarrow> pystr" where
  "encode_basestring_ascii s = [0x22] @ concat (map escape_char s) @ [0x22]"

function decimal :: "nat \<Rightarrow> pystr" where
  "decimal n = (if n < 10 then [48 + n] else decimal (n div 10) @ [48 + n mod 10])"
  by pat_completeness auto
termination
  by (relation "measure id") auto

definition int_repr :: "int \<Rightarrow> pystr" where
  "int_repr i = (if i < 0 then 45 # decimal (nat (- i)) else decimal (nat i))"

definition newline_indent :: "nat \<Rightarrow> pystr" where
  "newline_indent level = 10 # replicate (4 * level) 32"

fun iterencode :: "nat \<Rightarrow> json \<Rightarrow> pystr"
  and iterencode_list :: "nat \<Rightarrow> json list \<Rightarrow> pystr"
  and iterencode_dict :: "nat \<Rightarrow> (pystr \<times> json) list \<Rightarrow> pystr" where
  "iterencode level JNull = asc ''null''"
| "iterencode level (JBool b) = (if b then asc ''true'' else asc ''false'')"
| "iterencode level (JInt i) = int_repr i"
| "iterencode level (JFloat lexeme) = lexeme"
| "iterencode level (JStr s) = encode_basestring_ascii s"
| "iterencode level (JArr []) = asc ''[]''"
| "iterencode level (JArr (v # vs)) =
     [0x5B] @ newline_indent (Suc level) @ iterencode_list (Suc level) (v # vs)
     @ newline_indent level @ [0x5D]"
| "iterencode level (JObj []) = asc ''{}''"
| "iterencode level (JObj (kv # kvs)) =
     [0x7B] @ newline_indent (Suc level) @ iterencode_dict (Suc level) (kv # kvs)
     @ newline_indent level @ [0x7D]"
| "iterencode_list level [] = []"
| "iterencode_list level (v # vs) =
     iterencode level v
     @ (if vs = [] then [] else [0x2C] @ newline_indent level @ iterencode_list level vs)"
| "iterencode_dict level [] = []"
| "iterencode_dict level ((k, v) # kvs) =
     encode_basestring_ascii k @ [0x3A, 0x20] @ iterencode level v
     @ (if kvs = [] then [] else [0x2C] @ newline_indent level @ iterencode_dict level kvs)"

definition json_dumps :: "json \<Rightarrow> pystr" where
  "json_dumps obj = iterencode 0 obj"

subsection \<open>json.loads\<close>

text \<open>
  The scanner of the json module on a string: \<open>scanstring\<close> reads a string literal after
  its opening quote (strict mode: no raw control characters; a \<open>\u\<close> escape of a high
  surrogate followed by one of a low surrogate is joined into one code point),
  \<open>match_number\<close> a number, \<open>scan_once\<close> any value. Each function returns the value
  and the input left over, or \<open>None\<close> where the module raises \<open>JSONDecodeError\<close>. The
  first argument of \<open>scan_once\<close> bounds the chain of calls; \<open>json_loads\<close> starts it
  above the length of the text, and every call is made after at least one character has
  been consumed.
\<close>

definition json_ws :: "nat \<Rightarrow> bool" where
  "json_ws c = (c = 0x20 \<or> c = 0x09 \<or> c = 0x0A \<or> c = 0x0D)"

definition skip_ws :: "pystr \<Rightarrow> pystr" where
  "skip_ws s = dropWhile json_ws s"

definition is_digit :: "nat \<Rightarrow> bool" where
  "is_digit c = (48 \<le> c \<and> c \<le> 57)"

definition hex_val :: "nat \<Rightarrow> nat option" where
  "hex_val c =
     (if 48 \<le> c \<and> c \<le> 57 then Some (c - 48)
      else if 97 \<le> c \<and> c \<le> 102 then Some (c - 87)
      else if 65 \<le> c \<and> c \<le> 70 then Some (c - 55)
      else None)"

definition decode_hex4 :: "pystr \<Rightarrow> nat option" where
  "decode_hex4 s =
     (case map hex_val (take 4 s) of
        [Some a, Some b, Some c, Some d] \<Rightarrow> Some (a * 4096 + b * 256 + c * 16 + d)
      | _ \<Rightarrow> None)"

definition unescape :: "nat \<Rightarrow> nat option" where
  "unescape e =
     (if e = 0x22 \<or> e = 0x5C \<or> e = 0x2F then Some e
      else if e = 0x62 then Some 0x08
      else if e = 0x66 then Some 0x0C
      else if e = 0x6E then Some 0x0A
      else if e = 0x72 then Some 0x0D
      else if e = 0x74 then Some 0x09
      else None)"

definition cons_char :: "nat \<Rightarrow> (pystr \<times> pystr) option \<Rightarrow> (pystr \<times> pystr) option" where
  "cons_char c r = map_option (\<lambda>(str, rest). (c # str, rest)) r"

fun scanstring :: "pystr \<Rightarrow> (pystr \<times> pystr) option" where
  "scanstring [] = None"
| "scanstring (c # s) =
     (if c = 0x22 then Some ([], s)
      else if c = 0x5C then
        (case s of
           [] \<Rightarrow> None
         | e # r \<Rightarrow>
             if e = 0x75 then
               (case decode_hex4 r of
                  None \<Rightarrow> None
                | Some u \<Rightarrow>
                    if is_high_surrogate u \<and> 6 \<le> length (drop 4 r) \<and> take 2 (drop 4 r) = [0x5C, 0x75]
                    then
                      (case decode_hex4 (drop 6 r) of
                         None \<Rightarrow> None
                       | Some u2 \<Rightarrow>
                           if is_low_surrogate u2
                           then cons_char (0x10000 + (u - 0xD800) * 1024 + (u2 - 0xDC00))
                                  (scanstring (drop 10 r))
                           else cons_char u (scanstring (drop 4 r)))
                    else cons_char u (scanstring (drop 4 r)))
             else
               (case unescape e of
                  None \<Rightarrow> None
                | Some x \<Rightarrow> cons_char x (scanstring r)))
      else if c \<le> 0x1F then None
      else cons_char c (scanstring s))"

definition int_of_digits :: "pystr \<Rightarrow> int" where
  "int_of_digits ds = foldl (\<lambda>a d. 10 * a + int (d - 48)) 0 ds"

definition match_frac :: "pystr \<Rightarrow> pystr \<times> pystr" where
  "match_frac s =
     (case s of
        c # d # r \<Rightarrow>
          if c = 0x2E \<and> is_digit d
          then (c # d # takeWhile is_digit r, dropWhile is_digit r)
          else ([], s)
      | _ \<Rightarrow> ([], s))"

definition match_exp :: "pystr \<Rightarrow> pystr \<times> pystr" where
  "match_exp s =
     (case s of
        e # r \<Rightarrow>
          if e = 0x65 \<or> e = 0x45 then
            (let sign = (case r of c # _ \<Rightarrow> if c = 0x2D \<or> c = 0x2B then [c] else [] | [] \<Rightarrow> []);
                 r1 = drop (length sign) r;
                 ds = takeWhile is_digit r1
             in if ds = [] then ([], s) else (e # sign @ ds, dropWhile is_digit r1))
          else ([], s)
      | [] \<Rightarrow> ([], s))"

definition match_number :: "pystr \<Rightarrow> (json \<times> pystr) option" where
  "match_number s =
     (let sign = (case s of c # _ \<Rightarrow> if c = 0x2D then [c] else [] | [] \<Rightarrow> []);
          s1 = drop (length sign) s
      in case s1 of
           [] \<Rightarrow> None
         | d # r \<Rightarrow>
             if \<not> is_digit d then None
             else
               let ds = (if d = 48 then [d] else d # takeWhile is_digit r);
                   s2 = (if d = 48 then r else dropWhile is_digit r);
                   frac = fst (match_frac s2);
                   ex = fst (match_exp (snd (match_frac s2)));
                   s4 = snd (match_exp (snd (match_frac s2)))
               in if frac = [] \<and> ex = []
                  then Some (JInt (if sign = [] then int_of_digits ds else - int_of_digits ds), s4)
                  else Some (JFloat (sign @ ds @ frac @ ex), s4))"

definition match_constant :: "pystr \<Rightarrow> (json \<times> pystr) option" where
  "match_constant s =
     (if startswith s (asc ''null'') then Some (JNull, drop 4 s)
      else if startswith s (asc ''true'') then Some (JBool True, drop 4 s)
      else if startswith s (asc ''false'') then Some (JBool False, drop 5 s)
      else if startswith s (asc ''NaN'') then Some (JFloat (asc ''NaN''), drop 3 s)
      else if startswith s (asc ''Infinity'') then Some (JFloat (asc ''Infinity''), drop 8 s)
      else if startswith s (asc ''-Infinity'') then Some (JFloat (asc ''-Infinity''), drop 9 s)
      else match_number s)"

fun scan_once :: "nat \<Rightarrow> pystr \<Rightarrow> (json \<times> pystr) option"
  and parse_object :: "nat \<Rightarrow> (pystr \<times> json) list \<Rightarrow> pystr \<Rightarrow> (json \<times> pystr) option"
  and parse_array :: "nat \<Rightarrow> json list \<Rightarrow> pystr \<Rightarrow> (json \<times> pystr) option" where
  "scan_once 0 s = None"
| "scan_once (Suc n) [] = None"
| "scan_once (Suc n) (c # s) =
     (if c = 0x22 then map_option (\<lambda>(str, rest). (JStr str, rest)) (scanstring s)
      else if c = 0x7B then
        (case skip_ws s of
           [] \<Rightarrow> None
         | d # r \<Rightarrow> if d = 0x7D then Some (JObj [], r) else parse_object n [] (d # r))
      else if c = 0x5B then
        (case skip_ws s of
           [] \<Rightarrow> None
         | d # r \<Rightarrow> if d = 0x5D then Some (JArr [], r) else parse_array n [] (d # r))
      else match_constant (c # s))"
| "parse_object 0 pairs s = None"
| "parse_object (Suc n) pairs [] = None"
| "parse_object (Suc n) pairs (c # s) =
     (if c \<noteq> 0x22 then None
      else
        case scanstring s of
          None \<Rightarrow> None
        | Some (key, s1) \<Rightarrow>
            (case skip_ws s1 of
               [] \<Rightarrow> None
             | c2 # s2 \<Rightarrow>
                 if c2 \<noteq> 0x3A then None
                 else
                   case scan_once n (skip_ws s2) of
                     None \<Rightarrow> None
                   | Some (val, s3) \<Rightarrow>
                       (case skip_ws s3 of
                          [] \<Rightarrow> None
                        | c3 # s4 \<Rightarrow>
                            if c3 = 0x7D then Some (JObj (dict_set pairs key val), s4)
                            else if c3 = 0x2C
                              then parse_object n (dict_set pairs key val) (skip_ws s4)
                            else None)))"
| "parse_array 0 vals s = None"
| "parse_array (Suc n) vals s =
     (case scan_once n s of
        None \<Rightarrow> None
      | Some (val, s1) \<Rightarrow>
          (case skip_ws s1 of
             [] \<Rightarrow> None
           | c # s2 \<Rightarrow>
               if c = 0x5D then Some (JArr (vals @ [val]), s2)
               else if c = 0x2C then parse_array n (vals @ [val]) (skip_ws s2)
               else None))"

definition json_loads :: "pystr \<Rightarrow> json option" where
  "json_loads s =
     (if startswith s [0xFEFF] then None
      else
        case scan_once (Suc (length s)) (skip_ws s) of
          None \<Rightarrow> None
        | Some (obj, rest) \<Rightarrow> if skip_ws rest = [] then Some obj else None)"

section \<open>Writing to the file store\<close>

text \<open>
  Every operation returns the world it leaves behind and either a Python exception or a
  result: what was written before an exception stays written.
  \<open>write_file\<close> is \<open>open(path, "w")\<close> (or \<open>"wb"\<close>) followed by the writes and the close:
  an existing regular file keeps its permissions, a new one needs its parent directory.
\<close>

definition write_file :: "world \<Rightarrow> pystr \<Rightarrow> byte list \<Rightarrow> world \<times> (py_error + unit)" where
  "write_file w p bs =
     (case stat w p of
        Some Dir \<Rightarrow> (w, Inl IsADirectoryError)
      | Some (File old r wr) \<Rightarrow>
          if wr then (w\<lparr>fs := (fs w)(abspath (cwd w) p \<mapsto> File bs r wr)\<rparr>, Inr ())
          else (w, Inl PermissionError)
      | None \<Rightarrow>
          if p = [] then (w, Inl FileNotFoundError)
          else
            (case stat w (dirname (abspath (cwd w) p)) of
               Some Dir \<Rightarrow> (w\<lparr>fs := (fs w)(abspath (cwd w) p \<mapsto> File bs True True)\<rparr>, Inr ())
             | Some (File old r wr) \<Rightarrow> (w, Inl NotADirectoryError)
             | None \<Rightarrow> (w, Inl FileNotFoundError)))"

text \<open>
  \<open>os.makedirs\<close> creates the directory and every missing ancestor, from the root down.
\<close>

definition ancestors :: "pystr \<Rightarrow> pystr list" where
  "ancestors q =
     (let comps = filter (\<lambda>x. x \<noteq> []) (py_split 47 q);
          slashes = takeWhile (\<lambda>c. c = 47) q
      in map (\<lambda>i. slashes @ py_join [47] (take i comps)) [1..<Suc (length comps)])"

fun mkdir_chain :: "world \<Rightarrow> pystr list \<Rightarrow> world \<times> (py_error + unit)" where
  "mkdir_chain w [] = (w, Inr ())"
| "mkdir_chain w (q # qs) =
     (case fs w q of
        None \<Rightarrow> mkdir_chain (w\<lparr>fs := (fs w)(q \<mapsto> Dir)\<rparr>) qs
      | Some Dir \<Rightarrow> if qs = [] then (w, Inl FileExistsError) else mkdir_chain w qs
      | Some (File bs r wr) \<Rightarrow>
          if qs = [] then (w, Inl FileExistsError) else (w, Inl NotADirectoryError))"

definition makedirs :: "world \<Rightarrow> pystr \<Rightarrow> world \<times> (py_error + unit)" where
  "makedirs w p =
     (if p = [] then (w, Inl FileNotFoundError)
      else if is_root (abspath (cwd w) p) then (w, Inl FileExistsError)
      else mkdir_chain w (ancestors (abspath (cwd w) p)))"

text \<open>
  \<open>shutil.copy2(src, dst)\<close>: a destination that is a directory stands for the file of the
  same base name inside it; copying a file onto itself is refused; the copy has the
  bytes and the permissions of the source.
\<close>

definition copy2 :: "world \<Rightarrow> pystr \<Rightarrow> pystr \<Rightarrow> world \<times> (py_error + unit)" where
  "copy2 w src dst =
     (let dst' = (if stat w dst = Some Dir then path_join dst (basename src) else dst) in
      if stat w src \<noteq> None \<and> stat w dst' \<noteq> None \<and> abspath (cwd w) src = abspath (cwd w) dst'
      then (w, Inl SameFileError)
      else
        case stat w src of
          None \<Rightarrow> (w, Inl FileNotFoundError)
        | Some Dir \<Rightarrow> (w, Inl IsADirectoryError)
        | Some (File bs r wr) \<Rightarrow>
            if \<not> r then (w, Inl PermissionError)
            else
              (case write_file w dst' bs of
                 (w1, Inl e) \<Rightarrow> (w1, Inl e)
               | (w1, Inr u) \<Rightarrow>
                   (w1\<lparr>fs := (fs w1)(abspath (cwd w1) dst' \<mapsto> File bs r wr)\<rparr>, Inr ())))"

section \<open>Operations of Python on a decoded document\<close>

text \<open>
  The manifest is whatever document the file holds, so the operations the program
  applies to it are those of Python on a value of any type: a method or an item access
  the value does not have raises \<open>AttributeError\<close>, \<open>TypeError\<close> or \<open>KeyError\<close>.
  \<open>py_get\<close> is \<open>d.get(k)\<close>, whose result \<open>None\<close> is the value \<open>JNull\<close>.
  A float is zero when its significand has no digit other than \<open>0\<close> (underflow of a
  non-zero lexeme to zero is not modelled).
\<close>

definition py_copy :: "json \<Rightarrow> py_error + json" where
  "py_copy v = (case v of JObj kvs \<Rightarrow> Inr v | JArr vs \<Rightarrow> Inr v | _ \<Rightarrow> Inl AttributeError)"

definition py_get :: "json \<Rightarrow> pystr \<Rightarrow> py_error + json" where
  "py_get v k =
     (case v of
        JObj kvs \<Rightarrow> Inr (case map_of kvs k of None \<Rightarrow> JNull | Some x \<Rightarrow> x)
      | _ \<Rightarrow> Inl AttributeError)"

definition subscript :: "json \<Rightarrow> pystr \<Rightarrow> py_error + json" where
  "subscript v k =
     (case v of
        JObj kvs \<Rightarrow> (case map_of kvs k of None \<Rightarrow> Inl KeyError | Some x \<Rightarrow> Inr x)
      | _ \<Rightarrow> Inl TypeError)"

definition py_setitem :: "json \<Rightarrow> pystr \<Rightarrow> json \<Rightarrow> py_error + json" where
  "py_setitem v k x = (case v of JObj kvs \<Rightarrow> Inr (JObj (dict_set kvs k x)) | _ \<Rightarrow> Inl TypeError)"

definition py_len :: "json \<Rightarrow> py_error + nat" where
  "py_len v =
     (case v of
        JObj kvs \<Rightarrow> Inr (length kvs)
      | JArr vs \<Rightarrow> Inr (length vs)
      | JStr s \<Rightarrow> Inr (length s)
      | _ \<Rightarrow> Inl TypeError)"

definition py_items :: "json \<Rightarrow> py_error + (pystr \<times> json) list" where
  "py_items v = (case v of JObj kvs \<Rightarrow> Inr kvs | _ \<Rightarrow> Inl AttributeError)"

definition float_is_zero :: "pystr \<Rightarrow> bool" where
  "float_is_zero lexeme =
     list_all (\<lambda>c. c = 0x2D \<or> c = 0x2E \<or> c = 0x30)
       (takeWhile (\<lambda>c. c \<noteq> 0x65 \<and> c \<noteq> 0x45) lexeme)"

definition truthy :: "json \<Rightarrow> bool" where
  "truthy v =
     (case v of
        JNull \<Rightarrow> False
      | JBool b \<Rightarrow> b
      | JInt i \<Rightarrow> i \<noteq> 0
      | JFloat lexeme \<Rightarrow> \<not> float_is_zero lexeme
      | JStr s \<Rightarrow> s \<noteq> []
      | JArr vs \<Rightarrow> vs \<noteq> []
      | JObj kvs \<Rightarrow> kvs \<noteq> [])"

section \<open>The manifest store\<close>

definition MANIFEST_FILE_NAME :: pystr where
  "MANIFEST_FILE_NAME = asc ''manifest.json''"

definition read_text :: "world \<Rightarrow> pystr \<Rightarrow> py_error + pystr" where
  "read_text w p =
     (case open_rb w p of
        Inl e \<Rightarrow> Inl e
      | Inr bs \<Rightarrow>
          (case utf8_decode bs of
             None \<Rightarrow> Inl UnicodeDecodeError
           | Some t \<Rightarrow> Inr (universal_newlines t)))"

text \<open>
  \<open>load_manifest\<close>: only \<open>json.JSONDecodeError\<close> is caught; an exception of \<open>open\<close> or of
  the decoding of the bytes leaves the function.
\<close>

definition load_manifest :: "world \<Rightarrow> pystr \<Rightarrow> world \<times> (py_error + json)" where
  "load_manifest w manifest_path =
     (if \<not> path_exists w manifest_path then (w, Inr (JObj []))
      else
        case read_text w manifest_path of
          Inl e \<Rightarrow> (w, Inl e)
        | Inr text \<Rightarrow>
            let content = strip text in
            if content = [] then (w, Inr (JObj []))
            else
              (case json_loads text of
                 None \<Rightarrow> (print CorruptedWarning w, Inr (JObj []))
               | Some obj \<Rightarrow> (w, Inr obj)))"

text \<open>
  \<open>save_manifest\<close>: the file is opened for writing (and truncated), then the document is
  printed and encoded into it.
\<close>

definition save_manifest :: "world \<Rightarrow> pystr \<Rightarrow> json \<Rightarrow> world \<times> (py_error + unit)" where
  "save_manifest w manifest_path manifest_data =
     (case utf8_encode (json_dumps manifest_data) of
        None \<Rightarrow>
          (case write_file w manifest_path [] of
             (w1, Inl e) \<Rightarrow> (w1, Inl e)
           | (w1, Inr u) \<Rightarrow> (w1, Inl UnicodeEncodeError))
      | Some bs \<Rightarrow> write_file w manifest_path bs)"

section \<open>The backup engine\<close>

definition ensure_directory :: "world \<Rightarrow> pystr \<Rightarrow> world \<times> (py_error + unit)" where
  "ensure_directory w path =
     (if \<not> path_exists w path then makedirs w path else (w, Inr ()))"

definition backup_file :: "world \<Rightarrow> pystr \<Rightarrow> pystr \<Rightarrow> pystr \<Rightarrow> world \<times> (py_error + pystr)" where
  "backup_file w source_file source_root backup_root =
     (case relpath (cwd w) source_file source_root of
        Inl e \<Rightarrow> (w, Inl e)
      | Inr rel_path \<Rightarrow>
          let backup_file_path = path_join backup_root rel_path;
              backup_dir = dirname backup_file_path
          in case ensure_directory w backup_dir of
               (w1, Inl e) \<Rightarrow> (w1, Inl e)
             | (w1, Inr u) \<Rightarrow>
                 (case copy2 w1 source_file backup_file_path of
                    (w2, Inl e) \<Rightarrow> (w2, Inl e)
                  | (w2, Inr u2) \<Rightarrow> (w2, Inr backup_file_path)))"

record scan_state =
  updated_manifest :: json
  backed_up_files :: nat
  skipped_files :: nat

text \<open>
  The condition of the \<open>if\<close> in the loop: \<open>or\<close> evaluates its operands from the left and
  stops at the first true one, so the entry is subscripted only when it is not \<open>None\<close>.
\<close>

definition copy_decision :: "json \<Rightarrow> pystr \<Rightarrow> bool \<Rightarrow> py_error + bool" where
  "copy_decision previous_entry file_hash backup_exists =
     (if previous_entry = JNull then Inr True
      else
        case subscript previous_entry (asc ''hash'') of
          Inl e \<Rightarrow> Inl e
        | Inr h \<Rightarrow> Inr (h \<noteq> JStr file_hash \<or> \<not> backup_exists))"

definition now_isoformat :: "world \<Rightarrow> pystr \<times> world" where
  "now_isoformat w = (clock w (ticks w), w\<lparr>ticks := Suc (ticks w)\<rparr>)"

definition manifest_entry :: "pystr \<Rightarrow> pystr \<Rightarrow> pystr \<Rightarrow> json" where
  "manifest_entry file_hash time backup_file_path =
     JObj [(asc ''hash'', JStr file_hash),
           (asc ''last_backup_time'', JStr time),
           (asc ''backup_path'', JStr backup_file_path)]"

text \<open>The body of the inner loop of \<open>scan_and_backup\<close>, for one file name of one triple.\<close>

definition process_file ::
  "pystr \<Rightarrow> pystr \<Rightarrow> json \<Rightarrow> pystr \<Rightarrow> pystr \<Rightarrow> world \<Rightarrow> scan_state \<Rightarrow> world \<times> (py_error + scan_state)" where
  "process_file source_dir backup_dir manifest root file_name w st =
     (let source_file_path = path_join root file_name in
      if basename source_file_path = MANIFEST_FILE_NAME then (w, Inr st)
      else
        case calculate_file_hash w source_file_path default_chunk_size of
          Inl e \<Rightarrow> (w, Inl e)
        | Inr file_hash \<Rightarrow>
            (case relpath (cwd w) source_file_path source_dir of
               Inl e \<Rightarrow> (w, Inl e)
             | Inr rel_path \<Rightarrow>
                 (case py_get manifest rel_path of
                    Inl e \<Rightarrow> (w, Inl e)
                  | Inr previous_entry \<Rightarrow>
                      let backup_file_path = path_join backup_dir rel_path;
                          backup_exists = path_exists w backup_file_path
                      in case copy_decision previous_entry file_hash backup_exists of
                           Inl e \<Rightarrow> (w, Inl e)
                         | Inr True \<Rightarrow>
                             (case backup_file w source_file_path source_dir backup_dir of
                                (w1, Inl e) \<Rightarrow> (w1, Inl e)
                              | (w1, Inr copied_to) \<Rightarrow>
                                  let (time, w2) = now_isoformat w1 in
                                  (case py_setitem (updated_manifest st) rel_path
                                          (manifest_entry file_hash time copied_to) of
                                     Inl e \<Rightarrow> (w2, Inl e)
                                   | Inr um \<Rightarrow>
                                       (print (BackupLine rel_path) w2,
                                        Inr (st\<lparr>updated_manifest := um,
                                                backed_up_files := Suc (backed_up_files st)\<rparr>))))
                         | Inr False \<Rightarrow>
                             (print (SkipLine rel_path) w,
                              Inr (st\<lparr>skipped_files := Suc (skipped_files st)\<rparr>)))))"

fun scan_files ::
  "pystr \<Rightarrow> pystr \<Rightarrow> json \<Rightarrow> pystr \<Rightarrow> pystr list \<Rightarrow> world \<Rightarrow> scan_state \<Rightarrow> world \<times> (py_error + scan_state)" where
  "scan_files source_dir backup_dir manifest root [] w st = (w, Inr st)"
| "scan_files source_dir backup_dir manifest root (file_name # files) w st =
     (case process_file source_dir backup_dir manifest root file_name w st of
        (w1, Inl e) \<Rightarrow> (w1, Inl e)
      | (w1, Inr st1) \<Rightarrow> scan_files source_dir backup_dir manifest root files w1 st1)"

fun scan_walk ::
  "pystr \<Rightarrow> pystr \<Rightarrow> json \<Rightarrow> (pystr \<times> pystr list \<times> pystr list) list \<Rightarrow> world \<Rightarrow> scan_state
   \<Rightarrow> world \<times> (py_error + scan_state)" where
  "scan_walk source_dir backup_dir manifest [] w st = (w, Inr st)"
| "scan_walk source_dir backup_dir manifest ((root, dirs, files) # triples) w st =
     (case scan_files source_dir backup_dir manifest root files w st of
        (w1, Inl e) \<Rightarrow> (w1, Inl e)
      | (w1, Inr st1) \<Rightarrow> scan_walk source_dir backup_dir manifest triples w1 st1)"

definition scan_and_backup :: "world \<Rightarrow> pystr \<Rightarrow> pystr \<Rightarrow> pystr \<Rightarrow> world \<times> (py_error + unit)" where
  "scan_and_backup w source_dir backup_dir manifest_path =
     (case ensure_directory w backup_dir of
        (w1, Inl e) \<Rightarrow> (w1, Inl e)
      | (w1, Inr u) \<Rightarrow>
          (case load_manifest w1 manifest_path of
             (w2, Inl e) \<Rightarrow> (w2, Inl e)
           | (w2, Inr manifest) \<Rightarrow>
               (case py_copy manifest of
                  Inl e \<Rightarrow> (w2, Inl e)
                | Inr updated \<Rightarrow>
                    (case scan_walk source_dir backup_dir manifest (os_walk w2 source_dir) w2
                            \<lparr>updated_manifest = updated, backed_up_files = 0, skipped_files = 0\<rparr> of
                       (w3, Inl e) \<Rightarrow> (w3, Inl e)
                     | (w3, Inr st) \<Rightarrow>
                         (case save_manifest w3 manifest_path (updated_manifest st) of
                            (w4, Inl e) \<Rightarrow> (w4, Inl e)
                          | (w4, Inr u4) \<Rightarrow>
                              (print (BackupSummary source_dir backup_dir
                                        (backed_up_files st + skipped_files st)
                                        (backed_up_files st) (skipped_files st)) w4,
                               Inr ()))))))"

section \<open>The integrity verifier\<close>

text \<open>
  The loop of \<open>verify_backup_integrity\<close> over the items of the manifest. It only reads;
  \<open>soruce_file_path\<close> (as the source spells it) is computed and never used.
\<close>

fun verify_items ::
  "world \<Rightarrow> pystr \<Rightarrow> pystr \<Rightarrow> (pystr \<times> json) list \<Rightarrow> pystr list \<Rightarrow> pystr list
   \<Rightarrow> py_error + (pystr list \<times> pystr list)" where
  "verify_items w source_dir backup_dir [] mismatches missing_files = Inr (mismatches, missing_files)"
| "verify_items w source_dir backup_dir ((rel_path, meta) # items) mismatches missing_files =
     (let soruce_file_path = path_join source_dir rel_path;
          backup_file_path = path_join backup_dir rel_path
      in if \<not> path_exists w backup_file_path
         then verify_items w source_dir backup_dir items mismatches (missing_files @ [rel_path])
         else
           case calculate_file_hash w backup_file_path default_chunk_size of
             Inl e \<Rightarrow> Inl e
           | Inr current_hash \<Rightarrow>
               (case subscript meta (asc ''hash'') of
                  Inl e \<Rightarrow> Inl e
                | Inr h \<Rightarrow>
                    if JStr current_hash \<noteq> h
                    then verify_items w source_dir backup_dir items (mismatches @ [rel_path]) missing_files
                    else verify_items w source_dir backup_dir items mismatches missing_files))"

definition print_report :: "nat \<Rightarrow> pystr list \<Rightarrow> pystr list \<Rightarrow> world \<Rightarrow> world" where
  "print_report total_files mismatches missing_files w =
     (let w1 = print (IntegrityReport total_files (length missing_files) (length mismatches)) w;
          w2 = (if missing_files \<noteq> [] then print (MissingFiles missing_files) w1 else w1);
          w3 = (if mismatches \<noteq> [] then print (HashMismatches mismatches) w2 else w2)
      in if missing_files = [] \<and> mismatches = [] then print AllPassed w3 else w3)"

definition verify_backup_integrity :: "world \<Rightarrow> pystr \<Rightarrow> pystr \<Rightarrow> pystr \<Rightarrow> world \<times> (py_error + unit)" where
  "verify_backup_integrity w source_dir backup_dir manifest_path =
     (case load_manifest w manifest_path of
        (w1, Inl e) \<Rightarrow> (w1, Inl e)
      | (w1, Inr manifest) \<Rightarrow>
          if \<not> truthy manifest then (print NoManifestFound w1, Inr ())
          else
            (case py_len manifest of
               Inl e \<Rightarrow> (w1, Inl e)
             | Inr total_files \<Rightarrow>
                 (case py_items manifest of
                    Inl e \<Rightarrow> (w1, Inl e)
                  | Inr items \<Rightarrow>
                      (case verify_items w1 source_dir backup_dir items [] [] of
                         Inl e \<Rightarrow> (w1, Inl e)
                       | Inr (mismatches, missing_files) \<Rightarrow>
                           (print_report total_files mismatches missing_files w1, Inr ())))))"

section \<open>The command line\<close>

record args =
  arg_source :: pystr
  arg_backup :: pystr
  arg_verify :: bool
  arg_manifest :: pystr

text \<open>\<open>--manifest\<close> is optional and defaults to \<open>MANIFEST_FILE_NAME\<close>.\<close>

definition parse_arguments :: "pystr \<Rightarrow> pystr \<Rightarrow> bool \<Rightarrow> pystr option \<Rightarrow> args" where
  "parse_arguments src bak ver man =
     \<lparr>arg_source = src, arg_backup = bak, arg_verify = ver,
      arg_manifest = (case man of None \<Rightarrow> MANIFEST_FILE_NAME | Some m \<Rightarrow> m)\<rparr>"

definition main :: "world \<Rightarrow> args \<Rightarrow> world \<times> (py_error + unit)" where
  "main w a =
     (let source_dir = abspath (cwd w) (arg_source a);
          backup_dir = abspath (cwd w) (arg_backup a);
          manifest_path = abspath (cwd w) (arg_manifest a)
      in if \<not> path_exists w source_dir then (print (SourceMissing source_dir) w, Inr ())
         else if arg_verify a then verify_backup_integrity w source_dir backup_dir manifest_path
         else scan_and_backup w source_dir backup_dir manifest_path)"

section \<open>Predicates of the statements\<close>

text \<open>
  A string is well formed when each of its code points is a Unicode code point and none is
  a high surrogate: the strings the program handles are paths decoded from the file
  system (which yields lone low surrogates at most), hex digests and timestamps.
  A manifest is well formed when it is a dict from such strings to entries, an entry
  being a dict with exactly the fields \<open>hash\<close>, \<open>last_backup_time\<close> and
  \<open>backup_path\<close>, each a well-formed string.
\<close>

definition wf_text :: "pystr \<Rightarrow> bool" where
  "wf_text s = list_all (\<lambda>c. c < 0x110000 \<and> \<not> is_high_surrogate c) s"

definition wf_entry :: "json \<Rightarrow> bool" where
  "wf_entry e =
     (case e of
        JObj flds \<Rightarrow>
          distinct (map fst flds)
          \<and> set (map fst flds) = {asc ''hash'', asc ''last_backup_time'', asc ''backup_path''}
          \<and> list_all (\<lambda>(k, v). case v of JStr s \<Rightarrow> wf_text s | _ \<Rightarrow> False) flds
      | _ \<Rightarrow> False)"

definition wf_manifest :: "json \<Rightarrow> bool" where
  "wf_manifest m =
     (case m of
        JObj entries \<Rightarrow>
          distinct (map fst entries) \<and> list_all (\<lambda>(k, e). wf_text k \<and> wf_entry e) entries
      | _ \<Rightarrow> False)"

text \<open>The keys of the manifest a world holds at a path.\<close>

definition manifest_keys :: "world \<Rightarrow> pystr \<Rightarrow> pystr set" where
  "manifest_keys w mp =
     (case snd (load_manifest w mp) of Inr (JObj kvs) \<Rightarrow> set (map fst kvs) | _ \<Rightarrow> {})"

text \<open>\<open>only_printed w w'\<close>: the world \<open>w'\<close> is \<open>w\<close> with more lines on the console, and nothing else.\<close>

definition only_printed :: "world \<Rightarrow> world \<Rightarrow> bool" where
  "only_printed w w' =
     (fs w' = fs w \<and> cwd w' = cwd w \<and> os_walk w' = os_walk w \<and> clock w' = clock w
      \<and> ticks w' = ticks w \<and> (\<exists>ls. stdout w' = stdout w @ ls))"

text \<open>
  \<open>rt level v\<close>: the scanner reads \<open>v\<close> back from its encoding at \<open>level\<close>, whatever follows it,
  and the encoding starts with a character that is not white space.
\<close>

definition rt :: "nat \<Rightarrow> json \<Rightarrow> bool" where
  "rt level v =
     ((\<forall>n tail. length (iterencode level v) \<le> n
          \<longrightarrow> scan_once n (iterencode level v @ tail) = Some (v, tail))
      \<and> (\<exists>c r. iterencode level v = c # r \<and> \<not> json_ws c))"

text \<open>Text made of ASCII characters other than the carriage return.\<close>

definition ascii_text :: "pystr \<Rightarrow> bool" where
  "ascii_text s = list_all (\<lambda>c. c < 0x80 \<and> c \<noteq> 13) s"




text \<open>
  \<open>env_kept w w'\<close>: the operations on files change the file store only; a node that
  exists keeps existing.
\<close>

definition env_kept :: "world \<Rightarrow> world \<Rightarrow> bool" where
  "env_kept w w' =
     (cwd w' = cwd w \<and> os_walk w' = os_walk w \<and> clock w' = clock w \<and> ticks w' = ticks w
      \<and> stdout w' = stdout w \<and> (\<forall>p. stat w p \<noteq> None \<longrightarrow> stat w' p \<noteq> None))"

text \<open>
  The copy condition in the words of the specification: the manifest has no entry for the
  relative path, or the entry records another fingerprint than the file's, or nothing
  exists at the path of the backup copy.
\<close>

definition must_copy :: "(pystr \<times> json) list \<Rightarrow> pystr \<Rightarrow> pystr \<Rightarrow> bool \<Rightarrow> bool" where
  "must_copy entries rel_path file_hash backup_exists =
     ((case map_of entries rel_path of
         None \<Rightarrow> True
       | Some entry \<Rightarrow> subscript entry (asc ''hash'') \<noteq> Inr (JStr file_hash))
      \<or> \<not> backup_exists)"

text \<open>
  The files a walk lists, as pairs of a root and a file name in the order the two loops
  of \<open>scan_and_backup\<close> visit them, and the loop over such a list; \<open>scan_walk\<close> is this
  loop on the files listed (lemma \<open>scan_walk_listed\<close>). \<open>unreserved\<close> holds of a pair
  whose path does not have the reserved base name.
\<close>

definition listed :: "(pystr \<times> pystr list \<times> pystr list) list \<Rightarrow> (pystr \<times> pystr) list" where
  "listed triples = concat (map (\<lambda>(root, dirs, files). map (Pair root) files) triples)"

fun scan_list ::
  "pystr \<Rightarrow> pystr \<Rightarrow> json \<Rightarrow> (pystr \<times> pystr) list \<Rightarrow> world \<Rightarrow> scan_state
   \<Rightarrow> world \<times> (py_error + scan_state)" where
  "scan_list source_dir backup_dir m [] w st = (w, Inr st)"
| "scan_list source_dir backup_dir m ((root, file_name) # rest) w st =
     (case process_file source_dir backup_dir m root file_name w st of
        (w1, Inl e) \<Rightarrow> (w1, Inl e)
      | (w1, Inr st1) \<Rightarrow> scan_list source_dir backup_dir m rest w1 st1)"

definition unreserved :: "pystr \<times> pystr \<Rightarrow> bool" where
  "unreserved f = (basename (path_join (fst f) (snd f)) \<noteq> MANIFEST_FILE_NAME)"

text \<open>
  \<open>progressed w w'\<close>: what a part of a run may do to the world: write files and create
  directories (a node that exists keeps existing), read the clock, print lines.
\<close>

definition progressed :: "world \<Rightarrow> world \<Rightarrow> bool" where
  "progressed w w' =
     (cwd w' = cwd w \<and> os_walk w' = os_walk w \<and> clock w' = clock w
      \<and> (\<forall>p. stat w p \<noteq> None \<longrightarrow> stat w' p \<noteq> None))"

text \<open>
  The lines printed between two worlds of a run, and the absolute paths the copy of a
  listed file may write: \<open>backup_dir/R\<close>, or the file of the same base name inside it
  when it is a directory.
\<close>

definition printed :: "world \<Rightarrow> world \<Rightarrow> line list" where
  "printed w w' = drop (length (stdout w)) (stdout w')"



section \<open>Worlds used to instantiate the theorems\<close>

definition world_abc :: world where
  "world_abc =
     \<lparr>fs = [asc ''/s/a.txt'' \<mapsto> File [0x61, 0x62, 0x63] True True],
      cwd = asc ''/'', os_walk = (\<lambda>_. []), clock = (\<lambda>_. []), ticks = 0, stdout = []\<rparr>"

definition manifest_one :: json where
  "manifest_one = JObj [(asc ''a.txt'', manifest_entry (asc ''00'') (asc ''t0'') (asc ''/b/a.txt''))]"

text \<open>A manifest file that is not UTF-8: the single byte \<open>0xFF\<close>.\<close>

definition world_undecodable :: world where
  "world_undecodable =
     \<lparr>fs = [asc ''/m.json'' \<mapsto> File [0xFF] True True],
      cwd = asc ''/'', os_walk = (\<lambda>_. []), clock = (\<lambda>_. []), ticks = 0, stdout = []\<rparr>"

text \<open>
  A backup tree with one copy and the manifest that records it (under a hash the copy
  does not have), and the same world with one more file in a source tree.
\<close>

definition world_backed :: world where
  "world_backed =
     \<lparr>fs = [asc ''/m.json'' \<mapsto> File (map of_nat (json_dumps manifest_one)) True True,
            asc ''/b'' \<mapsto> Dir,
            asc ''/b/a.txt'' \<mapsto> File [0x61, 0x62, 0x63] True True],
      cwd = asc ''/'', os_walk = (\<lambda>_. []), clock = (\<lambda>_. []), ticks = 0, stdout = []\<rparr>"

definition world_backed_more :: world where
  "world_backed_more =
     world_backed\<lparr>fs := (fs world_backed)(asc ''/s/new.txt'' \<mapsto> File [] True True)\<rparr>"


text \<open>
  A source tree with one file and an empty backup directory; and a source tree whose only
  file has the reserved name.
\<close>

definition world_source :: world where
  "world_source =
     \<lparr>fs = [asc ''/s'' \<mapsto> Dir,
            asc ''/s/a.txt'' \<mapsto> File [0x61, 0x62, 0x63] True True,
            asc ''/b'' \<mapsto> Dir],
      cwd = asc ''/'',
      os_walk = (\<lambda>top. if top = asc ''/s'' then [(asc ''/s'', [], [asc ''a.txt''])] else []),
      clock = (\<lambda>_. asc ''t0''), ticks = 0, stdout = []\<rparr>"

definition world_reserved :: world where
  "world_reserved =
     \<lparr>fs = [asc ''/s'' \<mapsto> Dir,
            asc ''/s/manifest.json'' \<mapsto> File [0x78] True True,
            asc ''/b'' \<mapsto> Dir],
      cwd = asc ''/'',
      os_walk = (\<lambda>top. if top = asc ''/s'' then [(asc ''/s'', [], [asc ''manifest.json''])] else []),
      clock = (\<lambda>_. asc ''t0''), ticks = 0, stdout = []\<rparr>"

text \<open>The manifest in use is a file of the source tree, under another name than the reserved one.\<close>

definition world_inside :: world where
  "world_inside =
     \<lparr>fs = [asc ''/s'' \<mapsto> Dir,
            asc ''/s/state.json'' \<mapsto> File [0x7B, 0x7D] True True,
            asc ''/b'' \<mapsto> Dir],
      cwd = asc ''/'',
      os_walk = (\<lambda>top. if top = asc ''/s'' then [(asc ''/s'', [], [asc ''state.json''])] else []),
      clock = (\<lambda>_. asc ''t0''), ticks = 0, stdout = []\<rparr>"

definition scan_start :: scan_state where
  "scan_start = \<lparr>updated_manifest = JObj [], backed_up_files = 0, skipped_files = 0\<rparr>"


section \<open>Properties of the fingerprinter\<close>

declare hash_loop.simps [simp del]

lemma sha_update_Nil: "sha_update h [] = h"
  by (simp add: sha_update_def)

lemma sha_update_append: "sha_update (sha_update h xs) ys = sha_update h (xs @ ys)"
  by (simp add: sha_update_def)

text \<open>With a chunk size other than zero the loop has fed the whole content when it stops.\<close>

lemma hash_loop_feeds_all: "n \<noteq> 0 \<Longrightarrow> hash_loop n rest h = sha_update h rest"
proof (induction n rest h rule: hash_loop.induct)
  case (1 n rest h)
  show ?case
  proof (cases "fst (f_read n rest) = []")
    case True
    with \<open>n \<noteq> 0\<close> have "rest = []"
      by (auto simp: f_read_def split: if_splits)
    with True show ?thesis
      by (subst hash_loop.simps) (simp add: sha_update_Nil)
  next
    case False
    have "fst (f_read n rest) @ snd (f_read n rest) = rest"
      by (simp add: f_read_def)
    with False "1.IH" [OF refl False \<open>n \<noteq> 0\<close>] show ?thesis
      by (subst hash_loop.simps) (simp add: sha_update_append)
  qed
qed

lemma hash_loop_zero: "hash_loop 0 rest h = h"
  by (subst hash_loop.simps) (simp add: f_read_def)

lemma list8: "length s = 8 \<Longrightarrow> \<exists>a b c d e f g h. s = [a, b, c, d, e, f, g, h]"
  by (auto simp: numeral_eq_Suc length_Suc_conv)

lemma length_sha256_round: "length s = 8 \<Longrightarrow> length (sha256_round s kw) = 8"
proof -
  assume "length s = 8"
  then obtain a b c d e f g h where "s = [a, b, c, d, e, f, g, h]"
    using list8 by blast
  then show ?thesis by (cases kw) (simp add: Let_def)
qed

lemma length_foldl_round: "length s = 8 \<Longrightarrow> length (foldl sha256_round s kws) = 8"
  by (induction kws arbitrary: s) (simp_all add: length_sha256_round)

lemma length_sha256_block: "length hs = 8 \<Longrightarrow> length (sha256_block hs blk) = 8"
  by (simp add: sha256_block_def length_foldl_round)

lemma length_sha256_blocks: "length hs = 8 \<Longrightarrow> length (sha256_blocks n hs bs) = 8"
  by (induction n arbitrary: hs bs) (simp_all add: length_sha256_block)

lemma length_sha256: "length (sha256 m) = 8"
  by (simp add: sha256_def Let_def length_sha256_blocks sha256_H0_def)

lemma length_hex_of_words: "length (hex_of_words ws) = 8 * length ws"
  by (induction ws) (simp_all add: hex_of_words_def hex32_def)

lemma length_hexdigest: "length (hexdigest h) = 64"
  by (simp add: hexdigest_def length_hex_of_words length_sha256)

text \<open>The digest function is the one of the standard: its value on the message \<open>abc\<close>.\<close>

lemma sha256_abc:
  "hex_of_words (sha256 [0x61, 0x62, 0x63]) =
   asc ''ba7816bf8f01cfea414140de5dae2223b00361a396177a9cb410ff61f20015ad''"
  by code_simp



section \<open>Reading never changes the world\<close>

lemma stat_print [simp]: "stat (print l w) p = stat w p"
  by (simp add: stat_def print_def)

lemma fs_print [simp]: "fs (print l w) = fs w" "cwd (print l w) = cwd w"
  "os_walk (print l w) = os_walk w" "clock (print l w) = clock w" "ticks (print l w) = ticks w"
  "stdout (print l w) = stdout w @ [l]"
  by (simp_all add: print_def)

lemma open_rb_cong: "stat w2 p = stat w1 p \<Longrightarrow> open_rb w2 p = open_rb w1 p"
  by (simp add: open_rb_def)

lemma calculate_file_hash_cong:
  "stat w2 p = stat w1 p \<Longrightarrow> calculate_file_hash w2 p n = calculate_file_hash w1 p n"
  by (simp add: calculate_file_hash_def open_rb_def)

lemma path_exists_cong: "stat w2 p = stat w1 p \<Longrightarrow> path_exists w2 p = path_exists w1 p"
  by (simp add: path_exists_def)

lemma read_text_cong: "stat w2 p = stat w1 p \<Longrightarrow> read_text w2 p = read_text w1 p"
  by (simp add: read_text_def open_rb_def)

lemma load_manifest_world:
  "load_manifest w mp = (w1, r) \<Longrightarrow> w1 = w \<or> (w1 = print CorruptedWarning w \<and> r = Inr (JObj []))"
  by (auto simp: load_manifest_def Let_def split: if_splits sum.splits option.splits)

lemma load_manifest_stat [simp]: "stat (fst (load_manifest w mp)) p = stat w p"
  using load_manifest_world [of w mp "fst (load_manifest w mp)" "snd (load_manifest w mp)"]
  by auto

lemma load_manifest_cong:
  assumes "stat w2 mp = stat w1 mp"
  shows "snd (load_manifest w2 mp) = snd (load_manifest w1 mp)"
    and "stdout w2 = stdout w1 \<Longrightarrow> stdout (fst (load_manifest w2 mp)) = stdout (fst (load_manifest w1 mp))"
  using assms
  by (auto simp: load_manifest_def Let_def path_exists_def read_text_def open_rb_def
      split: sum.splits option.splits)

lemma verify_items_cong:
  "\<forall>R\<in>set (map fst items). stat w2 (path_join bd R) = stat w1 (path_join bd R)
   \<Longrightarrow> verify_items w2 sd2 bd items mm ms = verify_items w1 sd1 bd items mm ms"
proof (induction items arbitrary: mm ms)
  case Nil
  then show ?case by simp
next
  case (Cons a items)
  obtain R meta where a: "a = (R, meta)" by (cases a)
  from Cons.prems have s: "stat w2 (path_join bd R) = stat w1 (path_join bd R)"
    and rest: "\<forall>R\<in>set (map fst items). stat w2 (path_join bd R) = stat w1 (path_join bd R)"
    by (auto simp: a)
  show ?case
    by (simp add: a Let_def path_exists_cong [OF s] calculate_file_hash_cong [OF s]
        Cons.IH [OF rest] split: sum.splits)
qed

lemma only_printed_refl [simp]: "only_printed w w"
  by (simp add: only_printed_def)

lemma only_printed_print [simp]: "only_printed w w' \<Longrightarrow> only_printed w (print l w')"
  by (auto simp: only_printed_def)

lemma only_printed_trans: "only_printed w w1 \<Longrightarrow> only_printed w1 w2 \<Longrightarrow> only_printed w w2"
  by (auto simp: only_printed_def)

lemma print_report_only_printed [simp]: "only_printed w w' \<Longrightarrow> only_printed w (print_report t mm ms w')"
  by (simp add: print_report_def Let_def)

lemma load_manifest_only_printed: "only_printed w (fst (load_manifest w mp))"
  using load_manifest_world [of w mp "fst (load_manifest w mp)" "snd (load_manifest w mp)"]
  by auto

lemma verify_only_prints: "only_printed w (fst (verify_backup_integrity w sd bd mp))"
proof -
  obtain w1 r where l: "load_manifest w mp = (w1, r)" by (cases "load_manifest w mp")
  with load_manifest_only_printed [of w mp] have "only_printed w w1" by simp
  with l show ?thesis
    by (simp add: verify_backup_integrity_def split: sum.splits prod.splits)
qed

lemma verify_cong:
  assumes c: "stat w2 mp = stat w1 mp"
    and b: "\<forall>R\<in>manifest_keys w1 mp. stat w2 (path_join bd R) = stat w1 (path_join bd R)"
    and o: "stdout w2 = stdout w1"
  shows "snd (verify_backup_integrity w2 sd2 bd mp) = snd (verify_backup_integrity w1 sd1 bd mp)
       \<and> stdout (fst (verify_backup_integrity w2 sd2 bd mp)) = stdout (fst (verify_backup_integrity w1 sd1 bd mp))"
proof -
  obtain v1 r1 where l1: "load_manifest w1 mp = (v1, r1)" by (cases "load_manifest w1 mp")
  obtain v2 r2 where l2: "load_manifest w2 mp = (v2, r2)" by (cases "load_manifest w2 mp")
  from load_manifest_cong [OF c] l1 l2 o have r: "r2 = r1" and so: "stdout v2 = stdout v1"
    by auto
  have st: "\<And>p. stat v1 p = stat w1 p" "\<And>p. stat v2 p = stat w2 p"
    using load_manifest_stat [of w1 mp] load_manifest_stat [of w2 mp] l1 l2 by auto
  show ?thesis
  proof (cases r1)
    case (Inl e)
    with l1 l2 r so show ?thesis by (simp add: verify_backup_integrity_def)
  next
    case (Inr m)
    show ?thesis
    proof (cases "\<exists>kvs. m = JObj kvs")
      case False
      with l1 l2 r so Inr show ?thesis
        by (cases m) (auto simp: verify_backup_integrity_def py_items_def py_len_def print_def
            split: sum.splits)
    next
      case True
      then obtain kvs where m: "m = JObj kvs" by blast
      from b l1 Inr m have "\<forall>R\<in>set (map fst kvs). stat v2 (path_join bd R) = stat v1 (path_join bd R)"
        by (simp add: manifest_keys_def st)
      from verify_items_cong [OF this]
      have "verify_items v2 sd2 bd kvs [] [] = verify_items v1 sd1 bd kvs [] []" .
      with l1 l2 r so Inr m show ?thesis
        by (auto simp: verify_backup_integrity_def py_items_def py_len_def print_def
            print_report_def Let_def split: sum.splits)
    qed
  qed
qed

section \<open>The scanner reads back what the encoder prints\<close>

lemma hex_val_hex_digit: "d < 16 \<Longrightarrow> hex_val (hex_digit d) = Some d"
  by (auto simp: hex_val_def hex_digit_def)

lemma hex4_digits:
  assumes "c < 65536"
  shows "\<exists>a b d e. a < 16 \<and> b < 16 \<and> d < 16 \<and> e < 16
           \<and> hex4 c = [hex_digit a, hex_digit b, hex_digit d, hex_digit e]
           \<and> a * 4096 + b * 256 + d * 16 + e = c"
proof -
  define x1 where "x1 = c div 16"
  define x2 where "x2 = x1 div 16"
  define x3 where "x3 = x2 div 16"
  define m0 where "m0 = c mod 16"
  define m1 where "m1 = x1 mod 16"
  define m2 where "m2 = x2 mod 16"
  have e0: "c = x1 * 16 + m0" by (simp add: x1_def m0_def)
  have e1: "x1 = x2 * 16 + m1" by (simp add: x2_def m1_def)
  have e2: "x2 = x3 * 16 + m2" by (simp add: x3_def m2_def)
  have b: "m0 < 16" "m1 < 16" "m2 < 16" by (simp_all add: m0_def m1_def m2_def)
  have x3: "x3 < 16" using assms e0 e1 e2 by linarith
  have d1: "c div 256 = x2" by (simp add: x2_def x1_def div_mult2_eq)
  have d2: "c div 4096 = x3" by (simp add: x3_def x2_def x1_def div_mult2_eq)
  have h: "hex4 c = [hex_digit x3, hex_digit m2, hex_digit m1, hex_digit m0]"
    using x3 by (simp add: hex4_def d1 d2 x1_def [symmetric] m0_def m1_def m2_def)
  have "x3 * 4096 + m2 * 256 + m1 * 16 + m0 = c" using e0 e1 e2 by linarith
  with b x3 h show ?thesis by blast
qed

lemma decode_hex4_hex4: "c < 65536 \<Longrightarrow> decode_hex4 (hex4 c @ r) = Some c"
proof -
  assume "c < 65536"
  then obtain a b d e where "a < 16" "b < 16" "d < 16" "e < 16"
    "hex4 c = [hex_digit a, hex_digit b, hex_digit d, hex_digit e]"
    "a * 4096 + b * 256 + d * 16 + e = c"
    using hex4_digits by blast
  then show ?thesis
    by (simp add: decode_hex4_def hex_val_hex_digit)
qed

lemma length_hex4 [simp]: "length (hex4 c) = 4"
  by (simp add: hex4_def)

lemma drop_hex4: "drop 4 (hex4 c @ r) = r"
  by (simp_all add: hex4_def)

lemma scanstring_u_escape:
  assumes "c < 65536" "\<not> is_high_surrogate c"
  shows "scanstring ([0x5C, 0x75] @ hex4 c @ r) = cons_char c (scanstring r)"
  using assms by (simp add: decode_hex4_hex4)

lemma scanstring_pair_escape:
  assumes hi: "is_high_surrogate hi" and lo: "is_low_surrogate lo"
  shows "scanstring ([0x5C, 0x75] @ hex4 hi @ [0x5C, 0x75] @ hex4 lo @ r)
         = cons_char (0x10000 + (hi - 0xD800) * 1024 + (lo - 0xDC00)) (scanstring r)"
proof -
  have h: "hi < 65536" using hi by (simp add: is_high_surrogate_def)
  have l: "lo < 65536" using lo by (simp add: is_low_surrogate_def)
  have d: "decode_hex4 (hex4 hi @ [0x5C, 0x75] @ hex4 lo @ r) = Some hi"
    by (rule decode_hex4_hex4 [OF h])
  have d6: "drop 6 (hex4 hi @ [0x5C, 0x75] @ hex4 lo @ r) = hex4 lo @ r" by simp
  have d10: "drop 10 (hex4 hi @ [0x5C, 0x75] @ hex4 lo @ r) = r" by simp
  have d4: "drop 4 (hex4 hi @ [0x5C, 0x75] @ hex4 lo @ r) = [0x5C, 0x75] @ hex4 lo @ r" by simp
  show ?thesis
    apply (simp only: append_Cons append_Nil scanstring.simps)
    apply (simp only: d [simplified] d6 [simplified] d10 [simplified] d4 [simplified] list.case option.case)
    apply (simp add: hi lo decode_hex4_hex4 [OF l])
    done
qed

lemma astral_split:
  assumes "0x10000 \<le> c" "c < 0x110000"
  shows "is_high_surrogate (0xD800 + (c - 0x10000) div 1024)"
    and "is_low_surrogate (0xDC00 + (c - 0x10000) mod 1024)"
    and "0x10000 + (0xD800 + (c - 0x10000) div 1024 - 0xD800) * 1024
           + (0xDC00 + (c - 0x10000) mod 1024 - 0xDC00) = c"
proof -
  define q where "q = (c - 0x10000) div 1024"
  define m where "m = (c - 0x10000) mod 1024"
  have e: "c - 0x10000 = q * 1024 + m" by (simp add: q_def m_def)
  have m: "m < 1024" by (simp add: m_def)
  have q: "q < 1024" using assms e by linarith
  show "is_high_surrogate (0xD800 + (c - 0x10000) div 1024)"
    using q by (simp add: is_high_surrogate_def q_def [symmetric])
  show "is_low_surrogate (0xDC00 + (c - 0x10000) mod 1024)"
    using m by (simp add: is_low_surrogate_def m_def [symmetric])
  show "0x10000 + (0xD800 + (c - 0x10000) div 1024 - 0xD800) * 1024
           + (0xDC00 + (c - 0x10000) mod 1024 - 0xDC00) = c"
    using assms e by (simp add: q_def [symmetric] m_def [symmetric])
qed

lemma scanstring_escape:
  assumes c: "c < 0x110000" "\<not> is_high_surrogate c"
  shows "scanstring (escape_char c @ r) = cons_char c (scanstring r)"
proof -
  consider (special) "c = 0x22 \<or> c = 0x5C \<or> c = 0x0A \<or> c = 0x0D \<or> c = 0x09 \<or> c = 0x08 \<or> c = 0x0C"
    | (plain) "0x20 \<le> c" "c \<le> 0x7E" "c \<noteq> 0x22" "c \<noteq> 0x5C"
    | (bmp) "c < 0x20 \<or> 0x7E < c" "c < 0x10000" "c \<noteq> 0x0A" "c \<noteq> 0x0D" "c \<noteq> 0x09" "c \<noteq> 0x08" "c \<noteq> 0x0C"
    | (astral) "0x10000 \<le> c"
    by linarith
  then show ?thesis
  proof cases
    case special
    then show ?thesis by (auto simp: escape_char_def unescape_def)
  next
    case plain
    then show ?thesis by (simp add: escape_char_def)
  next
    case bmp
    then have e: "escape_char c = [0x5C, 0x75] @ hex4 c"
      by (auto simp: escape_char_def)
    show ?thesis
      unfolding e using scanstring_u_escape [OF bmp(2) c(2)] by simp
  next
    case astral
    then have e: "escape_char c = [0x5C, 0x75] @ hex4 (0xD800 + (c - 0x10000) div 1024)
         @ [0x5C, 0x75] @ hex4 (0xDC00 + (c - 0x10000) mod 1024)"
      by (simp add: escape_char_def)
    show ?thesis
      unfolding e
      using scanstring_pair_escape [OF astral_split(1) [OF astral c(1)] astral_split(2) [OF astral c(1)], of r]
      by (simp only: astral_split(3) [OF astral c(1)] append_assoc)
  qed
qed

lemma scanstring_roundtrip:
  "wf_text s \<Longrightarrow> scanstring (concat (map escape_char s) @ 0x22 # r) = Some (s, r)"
  by (induction s) (simp_all add: wf_text_def scanstring_escape cons_char_def)

lemma skip_ws_Cons: "\<not> json_ws c \<Longrightarrow> skip_ws (c # r) = c # r"
  by (simp add: skip_ws_def)

lemma skip_ws_space: "skip_ws (0x20 # r) = skip_ws r"
  by (simp add: skip_ws_def json_ws_def)

lemma skip_ws_newline_indent: "skip_ws (newline_indent l @ r) = skip_ws r"
proof -
  have "skip_ws (replicate k 0x20 @ r) = skip_ws r" for k
    by (induction k) (simp_all add: skip_ws_def json_ws_def)
  then show ?thesis
    by (simp add: newline_indent_def skip_ws_def json_ws_def)
qed

lemma encode_basestring_ascii_app:
  "encode_basestring_ascii k @ r = 0x22 # concat (map escape_char k) @ 0x22 # r"
  by (simp add: encode_basestring_ascii_def)

lemma rt_JStr: "wf_text s \<Longrightarrow> rt level (JStr s)"
proof -
  assume w: "wf_text s"
  have "scan_once n (iterencode level (JStr s) @ tail) = Some (JStr s, tail)"
    if "length (iterencode level (JStr s)) \<le> n" for n tail
  proof -
    from that obtain m where n: "n = Suc m"
      by (cases n) (simp_all add: encode_basestring_ascii_def)
    show ?thesis
      by (simp add: n encode_basestring_ascii_app scanstring_roundtrip [OF w])
  qed
  then show ?thesis
    by (simp add: rt_def encode_basestring_ascii_def json_ws_def)
qed

lemma dict_set_fresh: "k \<notin> fst ` set acc \<Longrightarrow> dict_set acc k v = acc @ [(k, v)]"
  by (induction acc) auto

lemma iterencode_dict_starts:
  "kvs \<noteq> [] \<Longrightarrow> \<exists>r. iterencode_dict level kvs = 0x22 # r"
  by (cases kvs) (auto simp: encode_basestring_ascii_def)

lemma parse_object_roundtrip:
  assumes "kvs \<noteq> []"
    and "\<forall>(k, v)\<in>set kvs. wf_text k \<and> rt level v"
    and "distinct (map fst kvs)"
    and "fst ` set acc \<inter> fst ` set kvs = {}"
    and "length (iterencode_dict level kvs) \<le> n"
  shows "parse_object n acc (iterencode_dict level kvs @ newline_indent l' @ 0x7D # tail)
         = Some (JObj (acc @ kvs), tail)"
  using assms
proof (induction kvs arbitrary: n acc)
  case Nil
  then show ?case by simp
next
  case (Cons kv kvs)
  obtain k v where kv: "kv = (k, v)" by (cases kv)
  from Cons.prems kv have wk: "wf_text k" and rv: "rt level v"
    and fresh: "k \<notin> fst ` set acc" and knew: "k \<notin> fst ` set kvs"
    by auto
  define Y where "Y = (if kvs = [] then [] else [0x2C] @ newline_indent level @ iterencode_dict level kvs)
      @ newline_indent l' @ 0x7D # tail"
  have enc: "iterencode_dict level (kv # kvs) @ newline_indent l' @ 0x7D # tail
      = 0x22 # concat (map escape_char k) @ 0x22 # 0x3A # 0x20 # iterencode level v @ Y"
    by (simp add: kv Y_def encode_basestring_ascii_def)
  have len: "length (iterencode level v) + 4 + (if kvs = [] then 0 else length (iterencode_dict level kvs) + 1)
      \<le> length (iterencode_dict level (kv # kvs))"
    by (simp add: kv encode_basestring_ascii_def)
  with Cons.prems(5) obtain m where n: "n = Suc m"
    and mv: "length (iterencode level v) \<le> m"
    and mk: "kvs \<noteq> [] \<longrightarrow> length (iterencode_dict level kvs) \<le> m"
    by (cases n) (auto split: if_splits)
  from rv obtain c r where st: "iterencode level v = c # r" "\<not> json_ws c"
    by (auto simp: rt_def)
  have sv: "scan_once m (iterencode level v @ Y) = Some (v, Y)"
    using rv mv by (simp add: rt_def)
  have sk1: "skip_ws (0x3A # 0x20 # iterencode level v @ Y) = 0x3A # 0x20 # iterencode level v @ Y"
    by (rule skip_ws_Cons) (simp add: json_ws_def)
  have sk2: "skip_ws (0x20 # iterencode level v @ Y) = iterencode level v @ Y"
    using st by (simp add: skip_ws_space skip_ws_Cons)
  have ds: "dict_set acc k v = acc @ [(k, v)]"
    by (rule dict_set_fresh [OF fresh])
  show ?case
  proof (cases "kvs = []")
    case True
    then have y: "skip_ws Y = 0x7D # tail"
      by (simp add: Y_def skip_ws_newline_indent skip_ws_Cons json_ws_def)
    show ?thesis
      unfolding enc n
      by (simp add: scanstring_roundtrip [OF wk] sk1 sk2 sv y ds True kv del: skip_ws_def)
  next
    case False
    then obtain r' where r': "iterencode_dict level kvs = 0x22 # r'"
      using iterencode_dict_starts by blast
    have y: "skip_ws Y = 0x2C # newline_indent level @ iterencode_dict level kvs @ newline_indent l' @ 0x7D # tail"
      using False by (simp add: Y_def skip_ws_Cons json_ws_def)
    have y2: "skip_ws (newline_indent level @ iterencode_dict level kvs @ newline_indent l' @ 0x7D # tail)
        = iterencode_dict level kvs @ newline_indent l' @ 0x7D # tail"
      by (simp add: skip_ws_newline_indent r' skip_ws_Cons json_ws_def)
    have ih: "parse_object m (acc @ [(k, v)]) (iterencode_dict level kvs @ newline_indent l' @ 0x7D # tail)
        = Some (JObj ((acc @ [(k, v)]) @ kvs), tail)"
    proof (rule Cons.IH [OF False])
      show "\<forall>(k, v)\<in>set kvs. wf_text k \<and> rt level v" using Cons.prems(2) by auto
      show "distinct (map fst kvs)" using Cons.prems(3) by simp
      show "fst ` set (acc @ [(k, v)]) \<inter> fst ` set kvs = {}"
        using Cons.prems(4) knew by (auto simp: kv)
      show "length (iterencode_dict level kvs) \<le> m" using mk False by simp
    qed
    show ?thesis
      unfolding enc n
      by (simp add: scanstring_roundtrip [OF wk] sk1 sk2 sv y y2 ds ih kv)
  qed
qed

lemma rt_JObj:
  assumes "\<forall>(k, v)\<in>set kvs. wf_text k \<and> rt (Suc level) v" and "distinct (map fst kvs)"
  shows "rt level (JObj kvs)"
proof (cases kvs)
  case Nil
  have "scan_once n (iterencode level (JObj []) @ tail) = Some (JObj [], tail)"
    if "length (iterencode level (JObj [])) \<le> n" for n tail
  proof -
    from that obtain m where n: "n = Suc m" by (cases n) (simp_all add: asc_def)
    show ?thesis by (simp add: n asc_def skip_ws_Cons json_ws_def)
  qed
  then show ?thesis by (simp add: rt_def Nil asc_def json_ws_def)
next
  case (Cons kv kvs')
  then have ne: "kvs \<noteq> []" by simp
  obtain r' where r': "iterencode_dict (Suc level) kvs = 0x22 # r'"
    using iterencode_dict_starts [OF ne] by blast
  have enc: "iterencode level (JObj kvs)
     = 0x7B # newline_indent (Suc level) @ iterencode_dict (Suc level) kvs @ newline_indent level @ [0x7D]"
    by (simp add: Cons)
  have "scan_once n (iterencode level (JObj kvs) @ tail) = Some (JObj kvs, tail)"
    if "length (iterencode level (JObj kvs)) \<le> n" for n tail
  proof -
    from that obtain m where n: "n = Suc m" and m: "length (iterencode_dict (Suc level) kvs) \<le> m"
      by (cases n) (simp_all add: enc)
    have p: "parse_object m [] (iterencode_dict (Suc level) kvs @ newline_indent level @ 0x7D # tail)
        = Some (JObj ([] @ kvs), tail)"
      by (rule parse_object_roundtrip [OF ne assms(1) assms(2) _ m]) simp
    have sk: "skip_ws (newline_indent (Suc level) @ 0x22 # r' @ newline_indent level @ 0x7D # tail)
        = 0x22 # r' @ newline_indent level @ 0x7D # tail"
      by (simp add: skip_ws_newline_indent skip_ws_Cons json_ws_def)
    show ?thesis
      using p by (simp add: enc n r' sk)
  qed
  then show ?thesis by (simp add: rt_def enc json_ws_def)
qed

lemma ascii_text_append [simp]: "ascii_text (a @ b) = (ascii_text a \<and> ascii_text b)"
  by (simp add: ascii_text_def)

lemma ascii_text_Cons [simp]: "ascii_text (c # s) = (c < 0x80 \<and> c \<noteq> 13 \<and> ascii_text s)"
  by (simp add: ascii_text_def)

lemma ascii_text_Nil [simp]: "ascii_text []"
  by (simp add: ascii_text_def)

lemma hex_digit_ascii: "d < 16 \<Longrightarrow> hex_digit d < 0x80 \<and> hex_digit d \<noteq> 13"
  by (auto simp: hex_digit_def)

lemma ascii_hex4: "ascii_text (hex4 c)"
  by (simp add: hex4_def hex_digit_ascii)

lemma ascii_escape_char: "ascii_text (escape_char c)"
  by (simp add: escape_char_def ascii_hex4)

lemma ascii_encode_basestring: "ascii_text (encode_basestring_ascii s)"
proof -
  have "ascii_text (concat (map escape_char s))"
    by (induction s) (simp_all add: ascii_escape_char)
  then show ?thesis by (simp add: encode_basestring_ascii_def)
qed

lemma ascii_newline_indent: "ascii_text (newline_indent l)"
  by (simp add: newline_indent_def ascii_text_def list_all_iff)

lemma ascii_iterencode_dict:
  "\<forall>(k, v)\<in>set kvs. ascii_text (iterencode level v) \<Longrightarrow> ascii_text (iterencode_dict level kvs)"
  by (induction kvs) (auto simp: ascii_encode_basestring ascii_newline_indent)

lemma ascii_JObj:
  "\<forall>(k, v)\<in>set kvs. ascii_text (iterencode (Suc level) v) \<Longrightarrow> ascii_text (iterencode level (JObj kvs))"
  using ascii_iterencode_dict [of kvs "Suc level"]
  by (cases kvs) (auto simp: asc_def ascii_newline_indent ascii_encode_basestring)

lemma utf8_encode_ascii: "ascii_text s \<Longrightarrow> utf8_encode s = Some (map of_nat s)"
  by (induction s) (simp_all add: utf8_encode_char_def)

lemma byte_of_ascii: "c < 0x80 \<Longrightarrow> (of_nat c :: byte) < 0x80 \<and> unat (of_nat c :: byte) = c"
  by (simp add: word_less_nat_alt unat_of_nat)

lemma utf8_decode_ascii: "ascii_text s \<Longrightarrow> utf8_decode (map of_nat s) = Some s"
  by (induction s) (simp_all add: byte_of_ascii)

lemma universal_newlines_ascii: "ascii_text s \<Longrightarrow> universal_newlines s = s"
  by (induction s rule: universal_newlines.induct) simp_all


lemma wf_text_asc_fields:
  "wf_text (asc ''hash'')" "wf_text (asc ''last_backup_time'')" "wf_text (asc ''backup_path'')"
  by (simp_all add: wf_text_def asc_def is_high_surrogate_def)

lemma rt_entry:
  assumes "wf_entry e"
  shows "rt level e \<and> ascii_text (iterencode level e)"
proof -
  from assms obtain flds where e: "e = JObj flds" and d: "distinct (map fst flds)"
    and k: "set (map fst flds) = {asc ''hash'', asc ''last_backup_time'', asc ''backup_path''}"
    and v: "list_all (\<lambda>(k, v). case v of JStr s \<Rightarrow> wf_text s | _ \<Rightarrow> False) flds"
    by (auto simp: wf_entry_def split: json.splits)
  have each: "wf_text k \<and> rt (Suc level) x \<and> ascii_text (iterencode (Suc level) x)"
    if "(k, x) \<in> set flds" for k x
  proof -
    from that k have "k \<in> {asc ''hash'', asc ''last_backup_time'', asc ''backup_path''}"
      by force
    then have wk: "wf_text k" using wf_text_asc_fields by auto
    from that v obtain s where "x = JStr s" "wf_text s"
      by (auto simp: list_all_iff split: json.splits)
    then show ?thesis using wk by (simp add: rt_JStr ascii_encode_basestring)
  qed
  have "rt level (JObj flds)"
    by (rule rt_JObj [OF _ d]) (use each in auto)
  moreover have "ascii_text (iterencode level (JObj flds))"
    by (rule ascii_JObj) (use each in auto)
  ultimately show ?thesis by (simp add: e)
qed

lemma rt_manifest:
  assumes "wf_manifest m"
  shows "rt level m \<and> ascii_text (iterencode level m)"
proof -
  from assms obtain es where m: "m = JObj es" and d: "distinct (map fst es)"
    and v: "list_all (\<lambda>(k, e). wf_text k \<and> wf_entry e) es"
    by (auto simp: wf_manifest_def split: json.splits)
  have each: "wf_text k \<and> rt (Suc level) e \<and> ascii_text (iterencode (Suc level) e)"
    if "(k, e) \<in> set es" for k e
    using that v rt_entry [of e "Suc level"] by (auto simp: list_all_iff)
  have "rt level (JObj es)"
    by (rule rt_JObj [OF _ d]) (use each in auto)
  moreover have "ascii_text (iterencode level (JObj es))"
    by (rule ascii_JObj) (use each in auto)
  ultimately show ?thesis by (simp add: m)
qed

lemma json_loads_dumps:
  assumes "wf_manifest m"
  shows "json_loads (json_dumps m) = Some m"
proof -
  from rt_manifest [OF assms, of 0] have r: "rt 0 m" and a: "ascii_text (iterencode 0 m)"
    by simp_all
  from r obtain c rest where s: "iterencode 0 m = c # rest" and c: "\<not> json_ws c"
    by (auto simp: rt_def)
  from a s have c80: "c < 0x80" by simp
  have "scan_once (Suc (length (iterencode 0 m))) (iterencode 0 m @ []) = Some (m, [])"
    using r by (simp add: rt_def del: append_Nil2)
  then have sc: "scan_once (Suc (length (iterencode 0 m))) (iterencode 0 m) = Some (m, [])"
    by simp
  have sk: "skip_ws (iterencode 0 m) = iterencode 0 m"
    by (simp add: s skip_ws_Cons [OF c])
  have bom: "\<not> startswith (iterencode 0 m) [0xFEFF]"
    using c80 by (simp add: startswith_def s)
  have e: "skip_ws [] = []" by (simp add: skip_ws_def)
  show ?thesis
    by (simp add: json_loads_def json_dumps_def bom sk sc e)
qed

lemma strip_nonempty: "c \<in> set s \<Longrightarrow> \<not> py_isspace c \<Longrightarrow> strip s \<noteq> []"
proof -
  assume c: "c \<in> set s" "\<not> py_isspace c"
  then have "c \<in> set (dropWhile py_isspace s)"
    by (induction s) auto
  then have "c \<in> set (rev (dropWhile py_isspace s))" by simp
  with c(2) have "dropWhile py_isspace (rev (dropWhile py_isspace s)) \<noteq> []"
    by (metis dropWhile_eq_Nil_conv)
  then show ?thesis by (simp add: strip_def)
qed

lemma strip_dumps:
  assumes "wf_manifest m"
  shows "strip (json_dumps m) \<noteq> []"
proof -
  from assms obtain es where m: "m = JObj es"
    by (auto simp: wf_manifest_def split: json.splits)
  have "0x7B \<in> set (json_dumps m)"
    by (cases es) (simp_all add: json_dumps_def m asc_def)
  moreover have "\<not> py_isspace 0x7B" by (simp add: py_isspace_def)
  ultimately show ?thesis by (rule strip_nonempty)
qed

lemma write_file_stat:
  assumes "write_file w p bs = (w', Inr ())"
  shows "\<exists>r wr. stat w' p = Some (File bs r wr)
           \<and> (r \<or> (\<exists>old. stat w p = Some (File old False wr)))
           \<and> w' = w\<lparr>fs := (fs w)(abspath (cwd w) p \<mapsto> File bs r wr)\<rparr>"
proof -
  have nr: "\<not> is_root (abspath (cwd w) p)" and ne: "p \<noteq> []"
    using assms by (auto simp: write_file_def stat_def split: if_splits)
  show ?thesis
  proof (cases "stat w p")
    case None
    with assms have "w' = w\<lparr>fs := (fs w)(abspath (cwd w) p \<mapsto> File bs True True)\<rparr>"
      by (auto simp: write_file_def split: if_splits option.splits node.splits)
    moreover from this have "stat w' p = Some (File bs True True)"
      using nr ne by (simp add: stat_def)
    ultimately show ?thesis by blast
  next
    case (Some nd)
    with assms obtain old r wr where nd: "nd = File old r wr"
      by (cases nd) (auto simp: write_file_def)
    with Some assms have "w' = w\<lparr>fs := (fs w)(abspath (cwd w) p \<mapsto> File bs r wr)\<rparr>"
      by (auto simp: write_file_def split: if_splits)
    moreover from this have "stat w' p = Some (File bs r wr)"
      using nr ne by (simp add: stat_def)
    moreover have "r \<or> (\<exists>old. stat w p = Some (File old False wr))"
      using Some nd by (cases r) auto
    ultimately show ?thesis by blast
  qed
qed

lemma load_manifest_of_text:
  assumes st: "stat w mp = Some (File (map of_nat (json_dumps m)) True wr)" and wf: "wf_manifest m"
  shows "load_manifest w mp = (w, Inr m)"
proof -
  have a: "ascii_text (json_dumps m)"
    using rt_manifest [OF wf, of 0] by (simp add: json_dumps_def)
  have "read_text w mp = Inr (json_dumps m)"
    by (simp add: read_text_def open_rb_def st utf8_decode_ascii [OF a] universal_newlines_ascii [OF a])
  then show ?thesis
    by (simp add: load_manifest_def path_exists_def st strip_dumps [OF wf] json_loads_dumps [OF wf])
qed

text \<open>
  C6. For every well-formed manifest \<open>m\<close>, once \<open>save_manifest\<close> has written it (and the
  file may be read), \<open>load_manifest\<close> on the same path returns \<open>m\<close>, with the same
  entries in the same order, and prints nothing.
\<close>

theorem load_after_save_roundtrip:
  assumes wf: "wf_manifest m"
    and save: "save_manifest w manifest_path m = (w', Inr ())"
    and readable: "\<forall>old wr. stat w manifest_path \<noteq> Some (File old False wr)"
  shows "load_manifest w' manifest_path = (w', Inr m)"
proof -
  have a: "ascii_text (json_dumps m)"
    using rt_manifest [OF wf, of 0] by (simp add: json_dumps_def)
  from save have "write_file w manifest_path (map of_nat (json_dumps m)) = (w', Inr ())"
    by (simp add: save_manifest_def utf8_encode_ascii [OF a])
  from write_file_stat [OF this] readable
  obtain wr where "stat w' manifest_path = Some (File (map of_nat (json_dumps m)) True wr)"
    by auto
  then show ?thesis by (rule load_manifest_of_text [OF _ wf])
qed

lemma save_manifest_wf:
  "wf_manifest m \<Longrightarrow> save_manifest w mp m = write_file w mp (map of_nat (json_dumps m))"
  using rt_manifest [of m 0]
  by (simp add: save_manifest_def json_dumps_def utf8_encode_ascii)

lemma wf_manifest_one: "wf_manifest manifest_one"
  by (simp add: manifest_one_def wf_manifest_def wf_entry_def manifest_entry_def wf_text_def
      asc_def is_high_surrogate_def)

lemma abspath_m_json: "abspath (asc ''/'') (asc ''/m.json'') = asc ''/m.json''"
  by (simp add: abspath_def normpath_def startswith_def asc_def Let_def)

theorem load_after_save_roundtrip_witness:
  "wf_manifest manifest_one
   \<and> snd (save_manifest world_abc (asc ''/m.json'') manifest_one) = Inr ()
   \<and> (\<forall>old wr. stat world_abc (asc ''/m.json'') \<noteq> Some (File old False wr))
   \<and> load_manifest (fst (save_manifest world_abc (asc ''/m.json'') manifest_one)) (asc ''/m.json'')
       = (fst (save_manifest world_abc (asc ''/m.json'') manifest_one), Inr manifest_one)"
proof -
  have st: "stat world_abc (asc ''/m.json'') = None"
    by (simp add: stat_def world_abc_def abspath_def normpath_def startswith_def asc_def Let_def
        is_root_def)
  have root: "stat world_abc (dirname (abspath (cwd world_abc) (asc ''/m.json''))) = Some Dir"
    by (simp add: stat_def world_abc_def abspath_def normpath_def startswith_def asc_def Let_def
        is_root_def dirname_def rstrip_sep_def)
  have s: "snd (save_manifest world_abc (asc ''/m.json'') manifest_one) = Inr ()"
    using st root by (simp add: save_manifest_wf [OF wf_manifest_one] write_file_def asc_def)
  then have s2: "save_manifest world_abc (asc ''/m.json'') manifest_one
      = (fst (save_manifest world_abc (asc ''/m.json'') manifest_one), Inr ())"
    by (metis prod.collapse)
  have r: "\<forall>old wr. stat world_abc (asc ''/m.json'') \<noteq> Some (File old False wr)"
    by (simp add: st)
  show ?thesis
    using wf_manifest_one s r load_after_save_roundtrip [OF wf_manifest_one s2 r] by simp
qed

section \<open>The manifest store on a missing, blank or corrupt file\<close>

lemma load_manifest_missing:
  "\<not> path_exists w p \<Longrightarrow> load_manifest w p = (w, Inr (JObj []))"
  by (simp add: load_manifest_def)

lemma load_manifest_blank:
  "path_exists w p \<Longrightarrow> read_text w p = Inr t \<Longrightarrow> strip t = []
   \<Longrightarrow> load_manifest w p = (w, Inr (JObj []))"
  by (simp add: load_manifest_def)

lemma load_manifest_unparseable:
  "path_exists w p \<Longrightarrow> read_text w p = Inr t \<Longrightarrow> strip t \<noteq> [] \<Longrightarrow> json_loads t = None
   \<Longrightarrow> load_manifest w p = (print CorruptedWarning w, Inr (JObj []))"
  by (simp add: load_manifest_def)

lemma load_manifest_parsed:
  "path_exists w p \<Longrightarrow> read_text w p = Inr t \<Longrightarrow> strip t \<noteq> [] \<Longrightarrow> json_loads t = Some m
   \<Longrightarrow> load_manifest w p = (w, Inr m)"
  by (simp add: load_manifest_def)

lemma load_manifest_raises:
  "path_exists w p \<Longrightarrow> read_text w p = Inl e \<Longrightarrow> load_manifest w p = (w, Inl e)"
  by (simp add: load_manifest_def)

lemma stat_undecodable:
  "stat world_undecodable (asc ''/m.json'') = Some (File [0xFF] True True)"
  by (simp add: stat_def world_undecodable_def abspath_def normpath_def startswith_def asc_def
      Let_def is_root_def)

text \<open>
  C2. On a manifest file whose bytes are not UTF-8 the exception of the decoder is not a
  \<open>JSONDecodeError\<close>: it leaves \<open>load_manifest\<close>, and with it the backup run and the
  verification, where the claim promises an empty mapping and a warning.
\<close>

theorem load_manifest_undecodable_raises:
  "load_manifest world_undecodable (asc ''/m.json'') = (world_undecodable, Inl UnicodeDecodeError)
   \<and> snd (verify_backup_integrity world_undecodable (asc ''/s'') (asc ''/b'') (asc ''/m.json''))
       = Inl UnicodeDecodeError
   \<and> snd (scan_and_backup world_undecodable (asc ''/s'') (asc ''/b'') (asc ''/m.json''))
       = Inl UnicodeDecodeError"
proof -
  have r: "read_text world_undecodable (asc ''/m.json'') = Inl UnicodeDecodeError"
    by (simp add: read_text_def open_rb_def stat_undecodable)
  have e: "path_exists world_undecodable (asc ''/m.json'')"
    by (simp add: path_exists_def stat_undecodable)
  have l: "load_manifest world_undecodable (asc ''/m.json'') = (world_undecodable, Inl UnicodeDecodeError)"
    by (rule load_manifest_raises [OF e r])
  have b: "abspath (asc ''/'') (asc ''/b'') = asc ''/b''"
    by (simp add: abspath_def normpath_def startswith_def asc_def Let_def)
  have nb: "stat world_undecodable (asc ''/b'') = None"
    by (simp add: stat_def world_undecodable_def b is_root_def) (simp add: asc_def)
  define w1 where "w1 = world_undecodable\<lparr>fs := (fs world_undecodable)(asc ''/b'' \<mapsto> Dir)\<rparr>"
  have mk: "ensure_directory world_undecodable (asc ''/b'') = (w1, Inr ())"
    using nb
    by (simp add: ensure_directory_def path_exists_def makedirs_def world_undecodable_def b
        is_root_def ancestors_def w1_def)
      (simp add: asc_def)
  have st1: "stat w1 (asc ''/m.json'') = Some (File [0xFF] True True)"
    using stat_undecodable
    by (simp add: stat_def w1_def world_undecodable_def abspath_def normpath_def startswith_def
        asc_def Let_def is_root_def)
  have l1: "load_manifest w1 (asc ''/m.json'') = (w1, Inl UnicodeDecodeError)"
    by (rule load_manifest_raises) (simp_all add: path_exists_def read_text_def open_rb_def st1)
  show ?thesis
    by (simp add: l verify_backup_integrity_def scan_and_backup_def mk l1)
qed

section \<open>The verifier\<close>

text \<open>
  C8. Verification leaves every part of the world but the console as it was, whatever its
  arguments; and its outcome and what it prints are the same in any second world (with any
  source directory) that has the same manifest file and the same nodes at the backup
  paths of the manifest's keys.
\<close>

theorem verify_is_read_only:
  "only_printed w (fst (verify_backup_integrity w source_dir backup_dir manifest_path))
   \<and> (\<forall>w2 source_dir2.
         stat w2 manifest_path = stat w manifest_path
         \<and> (\<forall>R\<in>manifest_keys w manifest_path. stat w2 (path_join backup_dir R) = stat w (path_join backup_dir R))
         \<and> stdout w2 = stdout w
         \<longrightarrow> snd (verify_backup_integrity w2 source_dir2 backup_dir manifest_path)
               = snd (verify_backup_integrity w source_dir backup_dir manifest_path)
             \<and> stdout (fst (verify_backup_integrity w2 source_dir2 backup_dir manifest_path))
               = stdout (fst (verify_backup_integrity w source_dir backup_dir manifest_path)))"
  using verify_only_prints verify_cong by blast

lemma abspath_root_literals:
  "abspath (asc ''/'') (asc ''/m.json'') = asc ''/m.json''"
  "abspath (asc ''/'') (asc ''/b/a.txt'') = asc ''/b/a.txt''"
  "abspath (asc ''/'') (asc ''/b'') = asc ''/b''"
  "abspath (asc ''/'') (asc ''/s/a.txt'') = asc ''/s/a.txt''"
  by (simp_all add: abspath_def normpath_def startswith_def asc_def Let_def)

lemma stat_world_backed:
  "stat world_backed (asc ''/m.json'') = Some (File (map of_nat (json_dumps manifest_one)) True True)"
  "stat world_backed_more (asc ''/m.json'') = Some (File (map of_nat (json_dumps manifest_one)) True True)"
  "stat world_backed (asc ''/b/a.txt'') = Some (File [0x61, 0x62, 0x63] True True)"
  "stat world_backed_more (asc ''/b/a.txt'') = Some (File [0x61, 0x62, 0x63] True True)"
  by (simp_all add: stat_def world_backed_def world_backed_more_def abspath_root_literals is_root_def)
     (simp_all add: asc_def)

lemma load_world_backed:
  "load_manifest world_backed (asc ''/m.json'') = (world_backed, Inr manifest_one)"
  by (rule load_manifest_of_text [OF stat_world_backed(1) wf_manifest_one])

lemma keys_world_backed: "manifest_keys world_backed (asc ''/m.json'') = {asc ''a.txt''}"
  by (simp add: manifest_keys_def load_world_backed) (simp add: manifest_one_def)

lemma join_b_a: "path_join (asc ''/b'') (asc ''a.txt'') = asc ''/b/a.txt''"
  by (simp add: path_join_def startswith_def endswith_def asc_def)

theorem verify_is_read_only_witness:
  "only_printed world_backed
     (fst (verify_backup_integrity world_backed (asc ''/s'') (asc ''/b'') (asc ''/m.json'')))
   \<and> stat world_backed_more (asc ''/m.json'') = stat world_backed (asc ''/m.json'')
   \<and> manifest_keys world_backed (asc ''/m.json'') = {asc ''a.txt''}
   \<and> stat world_backed_more (path_join (asc ''/b'') (asc ''a.txt''))
       = stat world_backed (path_join (asc ''/b'') (asc ''a.txt''))
   \<and> stdout world_backed_more = stdout world_backed
   \<and> fs world_backed_more \<noteq> fs world_backed
   \<and> snd (verify_backup_integrity world_backed_more (asc ''/elsewhere'') (asc ''/b'') (asc ''/m.json''))
       = snd (verify_backup_integrity world_backed (asc ''/s'') (asc ''/b'') (asc ''/m.json''))
   \<and> stdout (fst (verify_backup_integrity world_backed_more (asc ''/elsewhere'') (asc ''/b'') (asc ''/m.json'')))
       = stdout (fst (verify_backup_integrity world_backed (asc ''/s'') (asc ''/b'') (asc ''/m.json'')))"
proof -
  have m: "stat world_backed_more (asc ''/m.json'') = stat world_backed (asc ''/m.json'')"
    by (simp add: stat_world_backed)
  have b: "stat world_backed_more (path_join (asc ''/b'') (asc ''a.txt''))
       = stat world_backed (path_join (asc ''/b'') (asc ''a.txt''))"
    by (simp add: join_b_a stat_world_backed)
  have o: "stdout world_backed_more = stdout world_backed"
    by (simp add: world_backed_more_def)
  have d: "fs world_backed_more \<noteq> fs world_backed"
  proof
    assume "fs world_backed_more = fs world_backed"
    then have "fs world_backed_more (asc ''/s/new.txt'') = fs world_backed (asc ''/s/new.txt'')"
      by simp
    then show False
      by (simp add: world_backed_more_def world_backed_def) (simp add: asc_def)
  qed
  have k: "\<forall>R\<in>manifest_keys world_backed (asc ''/m.json'').
      stat world_backed_more (path_join (asc ''/b'') R) = stat world_backed (path_join (asc ''/b'') R)"
    by (simp add: keys_world_backed b)
  from verify_is_read_only [of world_backed "asc ''/s''" "asc ''/b''" "asc ''/m.json''"]
  have p: "only_printed world_backed
     (fst (verify_backup_integrity world_backed (asc ''/s'') (asc ''/b'') (asc ''/m.json'')))"
    and q: "snd (verify_backup_integrity world_backed_more (asc ''/elsewhere'') (asc ''/b'') (asc ''/m.json''))
       = snd (verify_backup_integrity world_backed (asc ''/s'') (asc ''/b'') (asc ''/m.json''))
   \<and> stdout (fst (verify_backup_integrity world_backed_more (asc ''/elsewhere'') (asc ''/b'') (asc ''/m.json'')))
       = stdout (fst (verify_backup_integrity world_backed (asc ''/s'') (asc ''/b'') (asc ''/m.json'')))"
    using m k o by blast+
  show ?thesis
    using p q m b o d keys_world_backed by simp
qed

section \<open>A loaded dict has distinct keys\<close>









section \<open>What the verifier reports\<close>








section \<open>What the writing operations leave alone\<close>

lemma env_kept_refl [simp]: "env_kept w w"
  by (simp add: env_kept_def)

lemma env_kept_trans: "env_kept w w1 \<Longrightarrow> env_kept w1 w2 \<Longrightarrow> env_kept w w2"
  by (simp add: env_kept_def)

lemma stat_fs_upd:
  "stat (w\<lparr>fs := (fs w)(q \<mapsto> nd)\<rparr>) p
   = (if p \<noteq> [] \<and> \<not> is_root (abspath (cwd w) p) \<and> abspath (cwd w) p = q then Some nd else stat w p)"
  by (auto simp: stat_def)

lemma write_file_frame:
  assumes "write_file w p bs = (w', res)"
  shows "env_kept w w'"
    and "abspath (cwd w) q \<noteq> abspath (cwd w) p \<Longrightarrow> stat w' q = stat w q"
proof -
  have "w' = w \<or> (\<exists>nd. w' = w\<lparr>fs := (fs w)(abspath (cwd w) p \<mapsto> nd)\<rparr>)"
    using assms by (auto simp: write_file_def split: option.splits node.splits if_splits)
  then show "env_kept w w'" and "abspath (cwd w) q \<noteq> abspath (cwd w) p \<Longrightarrow> stat w' q = stat w q"
    by (auto simp: env_kept_def stat_fs_upd)
qed

lemma mkdir_chain_frame:
  "mkdir_chain w qs = (w', res) \<Longrightarrow>
   env_kept w w' \<and> (\<forall>p. stat w p \<noteq> None \<longrightarrow> stat w' p = stat w p)
   \<and> (\<forall>p. stat w' p = stat w p \<or> stat w' p = Some Dir)"
proof (induction qs arbitrary: w)
  case Nil
  then show ?case by simp
next
  case (Cons q qs)
  show ?case
  proof (cases "fs w q")
    case None
    let ?w1 = "w\<lparr>fs := (fs w)(q \<mapsto> Dir)\<rparr>"
    from Cons.prems None have "mkdir_chain ?w1 qs = (w', res)" by simp
    from Cons.IH [OF this]
    have a: "env_kept ?w1 w'" and b: "\<forall>p. stat ?w1 p \<noteq> None \<longrightarrow> stat w' p = stat ?w1 p"
      and c: "\<forall>p. stat w' p = stat ?w1 p \<or> stat w' p = Some Dir"
      by simp_all
    have s1: "stat w p \<noteq> None \<Longrightarrow> stat ?w1 p = stat w p" for p
      using None by (auto simp: stat_fs_upd stat_def split: if_splits)
    have s2: "stat ?w1 p = stat w p \<or> stat ?w1 p = Some Dir" for p
      by (auto simp: stat_fs_upd)
    have e1: "env_kept w ?w1"
      using s1 by (simp add: env_kept_def)
    show ?thesis
    proof (intro conjI allI impI)
      show "env_kept w w'" by (rule env_kept_trans [OF e1 a])
      show "stat w' p = stat w p" if "stat w p \<noteq> None" for p
        using that s1 [of p] b by simp
      show "stat w' p = stat w p \<or> stat w' p = Some Dir" for p
        using s2 [of p] c by metis
    qed
  next
    case (Some nd)
    show ?thesis
    proof (cases "res = Inr () \<or> qs \<noteq> [] \<and> nd = Dir")
      case True
      with Cons.prems Some have "mkdir_chain w qs = (w', res)"
        by (cases nd) (auto split: if_splits)
      from Cons.IH [OF this] show ?thesis .
    next
      case False
      with Cons.prems Some have "w' = w"
        by (cases nd) (auto split: if_splits)
      then show ?thesis by simp
    qed
  qed
qed

lemma makedirs_frame:
  "makedirs w p = (w', res) \<Longrightarrow>
   env_kept w w' \<and> (\<forall>q. stat w q \<noteq> None \<longrightarrow> stat w' q = stat w q)
   \<and> (\<forall>q. stat w' q = stat w q \<or> stat w' q = Some Dir)"
  using mkdir_chain_frame [of w "ancestors (abspath (cwd w) p)" w' res]
  by (auto simp: makedirs_def split: if_splits)

lemma ensure_directory_frame:
  "ensure_directory w p = (w', res) \<Longrightarrow>
   env_kept w w' \<and> (\<forall>q. stat w q \<noteq> None \<longrightarrow> stat w' q = stat w q)
   \<and> (\<forall>q. stat w' q = stat w q \<or> stat w' q = Some Dir)"
  using makedirs_frame [of w p w' res]
  by (auto simp: ensure_directory_def split: if_splits)



lemma copy2_done:
  assumes "copy2 w src dst = (w', Inr u)"
  shows "\<exists>bs r wr. stat w src = Some (File bs r wr)
           \<and> (stat w' dst = Some Dir \<or> stat w' dst = Some (File bs r wr))"
proof -
  define dst' where "dst' = (if stat w dst = Some Dir then path_join dst (basename src) else dst)"
  from assms obtain bs r wr w1 where s: "stat w src = Some (File bs r wr)"
    and wf: "write_file w dst' bs = (w1, Inr ())"
    and w': "w' = w1\<lparr>fs := (fs w1)(abspath (cwd w1) dst' \<mapsto> File bs r wr)\<rparr>"
    unfolding copy2_def dst'_def [symmetric] Let_def
    by (auto split: if_splits option.splits node.splits prod.splits sum.splits)
  from write_file_stat [OF wf] obtain r1 wr1 where
    st1: "stat w1 dst' = Some (File bs r1 wr1)" by blast
  from write_file_frame [OF wf] have k: "env_kept w w1" by simp
  then have c: "cwd w1 = cwd w" by (simp add: env_kept_def)
  have ne: "dst' \<noteq> []" "\<not> is_root (abspath (cwd w) dst')"
    using st1 by (auto simp: stat_def c split: if_splits)
  have a: "stat w' dst' = Some (File bs r wr)"
    using ne by (simp add: w' stat_fs_upd c)
  show ?thesis
  proof (cases "stat w dst = Some Dir")
    case False
    then have "dst' = dst" by (simp add: dst'_def)
    with a s show ?thesis by simp
  next
    case True
    have "stat w1 dst \<noteq> None" using k True by (simp add: env_kept_def)
    have "stat w' dst = Some Dir"
    proof (cases "abspath (cwd w) dst = abspath (cwd w) dst'")
      case same: True
      have "dst \<noteq> []" using True by (auto simp: stat_def)
      then have "stat w dst = stat w dst'"
        using ne same by (simp add: stat_def)
      with True have "stat w dst' = Some Dir" by simp
      with wf show ?thesis by (simp add: write_file_def)
    next
      case False
      have "stat w1 dst = stat w dst"
        by (rule write_file_frame(2) [OF wf False])
      with False True show ?thesis by (simp add: w' stat_fs_upd c)
    qed
    with s show ?thesis by simp
  qed
qed


lemma backup_file_done:
  assumes b: "backup_file w src source_dir backup_dir = (w', Inr p)"
    and r: "relpath (cwd w) src source_dir = Inr R"
  shows "p = path_join backup_dir R
       \<and> (\<exists>bs r wr. stat w src = Some (File bs r wr)
             \<and> (stat w' p = Some Dir \<or> stat w' p = Some (File bs r wr)))"
proof -
  from b r obtain w1 u u2 where e: "ensure_directory w (dirname (path_join backup_dir R)) = (w1, Inr u)"
    and c: "copy2 w1 src (path_join backup_dir R) = (w', Inr u2)" and p: "p = path_join backup_dir R"
    by (auto simp: backup_file_def Let_def split: sum.splits prod.splits)
  from copy2_done [OF c] obtain bs r wr where s1: "stat w1 src = Some (File bs r wr)"
    and d: "stat w' (path_join backup_dir R) = Some Dir \<or> stat w' (path_join backup_dir R) = Some (File bs r wr)"
    by blast
  from ensure_directory_frame [OF e] have "stat w1 src = stat w src \<or> stat w1 src = Some Dir"
    by simp
  with s1 have "stat w src = Some (File bs r wr)" by auto
  with d p show ?thesis by simp
qed

section \<open>One step of the backup loop\<close>

lemma process_file_reserved:
  "basename (path_join root file_name) = MANIFEST_FILE_NAME
   \<Longrightarrow> process_file source_dir backup_dir m root file_name w st = (w, Inr st)"
  by (simp add: process_file_def)

lemma copy_decision_must_copy:
  assumes "\<forall>e. map_of entries R = Some e \<longrightarrow> (\<exists>v. subscript e (asc ''hash'') = Inr v)"
  shows "py_get (JObj entries) R = Inr prev
         \<Longrightarrow> copy_decision prev h ex = Inr (must_copy entries R h ex)"
proof (cases "map_of entries R")
  case None
  assume "py_get (JObj entries) R = Inr prev"
  with None show ?thesis by (auto simp: py_get_def copy_decision_def must_copy_def)
next
  case (Some e)
  assume "py_get (JObj entries) R = Inr prev"
  with Some have p: "prev = e" by (simp add: py_get_def)
  from assms Some obtain v where v: "subscript e (asc ''hash'') = Inr v" by blast
  then have "e \<noteq> JNull" by (auto simp: subscript_def)
  then show ?thesis
    using Some v by (auto simp: p copy_decision_def must_copy_def)
qed

lemma process_file_step:
  assumes n: "basename (path_join root file_name) \<noteq> MANIFEST_FILE_NAME"
    and h: "calculate_file_hash w (path_join root file_name) default_chunk_size = Inr h"
    and r: "relpath (cwd w) (path_join root file_name) source_dir = Inr R"
    and e: "\<forall>e. map_of entries R = Some e \<longrightarrow> (\<exists>v. subscript e (asc ''hash'') = Inr v)"
    and u: "updated_manifest st = JObj updated"
  shows "process_file source_dir backup_dir (JObj entries) root file_name w st
         = (if must_copy entries R h (path_exists w (path_join backup_dir R))
            then (case backup_file w (path_join root file_name) source_dir backup_dir of
                    (w1, Inl err) \<Rightarrow> (w1, Inl err)
                  | (w1, Inr copied_to) \<Rightarrow>
                      (print (BackupLine R) (w1\<lparr>ticks := Suc (ticks w1)\<rparr>),
                       Inr (st\<lparr>updated_manifest :=
                                 JObj (dict_set updated R (manifest_entry h (clock w1 (ticks w1)) copied_to)),
                               backed_up_files := Suc (backed_up_files st)\<rparr>)))
            else (print (SkipLine R) w, Inr (st\<lparr>skipped_files := Suc (skipped_files st)\<rparr>)))"
proof -
  obtain prev where g: "py_get (JObj entries) R = Inr prev"
    by (simp add: py_get_def)
  note d = copy_decision_must_copy [OF e g, of h "path_exists w (path_join backup_dir R)"]
  show ?thesis
    using n
    by (simp add: process_file_def Let_def h r g d u py_setitem_def now_isoformat_def
        split: prod.splits sum.splits)
qed

lemma map_of_dict_set: "map_of (dict_set kvs k v) k' = (if k' = k then Some v else map_of kvs k')"
  by (induction kvs) auto

text \<open>
  C1, as amended. For a file whose base name is not \<open>manifest.json\<close>, which can be
  fingerprinted and has a relative path \<open>R\<close>, over a manifest whose entry for \<open>R\<close> (if any)
  records a hash: the loop copies the file exactly when \<open>must_copy\<close> holds; when the copy
  succeeds the working manifest maps \<open>R\<close> to the fingerprint, the time of the clock and
  the path \<open>backup_dir/R\<close>, the file is counted as backed up and \<open>[BACKUP] R\<close> is printed,
  and the copy (same bytes and permissions) stands at \<open>backup_dir/R\<close> unless a directory
  does; otherwise the file is counted as skipped, \<open>[SKIP] R\<close> is printed and the manifest
  is untouched.
\<close>

theorem backup_decision_per_file:
  assumes "basename (path_join root file_name) \<noteq> MANIFEST_FILE_NAME"
    and "calculate_file_hash w (path_join root file_name) default_chunk_size = Inr h"
    and "relpath (cwd w) (path_join root file_name) source_dir = Inr R"
    and "\<forall>e. map_of entries R = Some e \<longrightarrow> (\<exists>v. subscript e (asc ''hash'') = Inr v)"
    and "updated_manifest st = JObj updated"
  shows "process_file source_dir backup_dir (JObj entries) root file_name w st
         = (if must_copy entries R h (path_exists w (path_join backup_dir R))
            then (case backup_file w (path_join root file_name) source_dir backup_dir of
                    (w1, Inl err) \<Rightarrow> (w1, Inl err)
                  | (w1, Inr copied_to) \<Rightarrow>
                      (print (BackupLine R) (w1\<lparr>ticks := Suc (ticks w1)\<rparr>),
                       Inr (st\<lparr>updated_manifest :=
                                 JObj (dict_set updated R
                                        (manifest_entry h (clock w1 (ticks w1)) (path_join backup_dir R))),
                               backed_up_files := Suc (backed_up_files st)\<rparr>)))
            else (print (SkipLine R) w, Inr (st\<lparr>skipped_files := Suc (skipped_files st)\<rparr>)))
       \<and> (\<forall>x. map_of (dict_set updated R x) R = Some x)
       \<and> (\<forall>w1 p. backup_file w (path_join root file_name) source_dir backup_dir = (w1, Inr p)
             \<longrightarrow> p = path_join backup_dir R
                 \<and> (\<exists>bs r wr. stat w (path_join root file_name) = Some (File bs r wr)
                       \<and> (stat w1 p = Some Dir \<or> stat w1 p = Some (File bs r wr))))"
proof -
  have d: "\<forall>w1 p. backup_file w (path_join root file_name) source_dir backup_dir = (w1, Inr p)
             \<longrightarrow> p = path_join backup_dir R
                 \<and> (\<exists>bs r wr. stat w (path_join root file_name) = Some (File bs r wr)
                       \<and> (stat w1 p = Some Dir \<or> stat w1 p = Some (File bs r wr)))"
    using backup_file_done [OF _ assms(3)] by blast
  have "(case backup_file w (path_join root file_name) source_dir backup_dir of
                    (w1, Inl err) \<Rightarrow> (w1, Inl err)
                  | (w1, Inr copied_to) \<Rightarrow>
                      (print (BackupLine R) (w1\<lparr>ticks := Suc (ticks w1)\<rparr>),
                       Inr (st\<lparr>updated_manifest :=
                                 JObj (dict_set updated R (manifest_entry h (clock w1 (ticks w1)) copied_to)),
                               backed_up_files := Suc (backed_up_files st)\<rparr>)))
      = (case backup_file w (path_join root file_name) source_dir backup_dir of
                    (w1, Inl err) \<Rightarrow> (w1, Inl err)
                  | (w1, Inr copied_to) \<Rightarrow>
                      (print (BackupLine R) (w1\<lparr>ticks := Suc (ticks w1)\<rparr>),
                       Inr (st\<lparr>updated_manifest :=
                                 JObj (dict_set updated R
                                        (manifest_entry h (clock w1 (ticks w1)) (path_join backup_dir R))),
                               backed_up_files := Suc (backed_up_files st)\<rparr>)))"
    using d by (auto split: prod.splits sum.splits)
  then show ?thesis
    using process_file_step [OF assms] d by (simp add: map_of_dict_set)
qed

lemmas path_eval = abspath_def normpath_def startswith_def endswith_def path_join_def dirname_def
  basename_def rstrip_sep_def relpath_def asc_def Let_def is_root_def

lemma world_source_paths:
  "path_join (asc ''/s'') (asc ''a.txt'') = asc ''/s/a.txt''"
  "relpath (asc ''/'') (asc ''/s/a.txt'') (asc ''/s'') = Inr (asc ''a.txt'')"
  "basename (asc ''/s/a.txt'') = asc ''a.txt''"
  "dirname (asc ''/b/a.txt'') = asc ''/b''"
  by (simp_all add: path_eval)

lemma stat_world_source:
  "stat world_source (asc ''/s/a.txt'') = Some (File [0x61, 0x62, 0x63] True True)"
  "stat world_source (asc ''/b/a.txt'') = None"
  "stat world_source (asc ''/b'') = Some Dir"
  by (simp_all add: stat_def world_source_def path_eval)

lemma hash_world_source:
  "calculate_file_hash world_source (asc ''/s/a.txt'') default_chunk_size
   = Inr (hex_of_words (sha256 [0x61, 0x62, 0x63]))"
  by (simp add: calculate_file_hash_def open_rb_def stat_world_source hash_loop_feeds_all
      default_chunk_size_def hexdigest_def sha_update_def hashlib_sha256_def)

lemma backup_world_source:
  "backup_file world_source (asc ''/s/a.txt'') (asc ''/s'') (asc ''/b'')
   = (world_source\<lparr>fs := (fs world_source)(asc ''/b/a.txt'' \<mapsto> File [0x61, 0x62, 0x63] True True)\<rparr>,
      Inr (asc ''/b/a.txt''))"
proof -
  have c: "cwd world_source = asc ''/''" by (simp add: world_source_def)
  have e: "ensure_directory world_source (asc ''/b'') = (world_source, Inr ())"
    by (simp add: ensure_directory_def path_exists_def stat_world_source)
  have a: "abspath (asc ''/'') (asc ''/b/a.txt'') = asc ''/b/a.txt''"
    by (simp add: path_eval)
  have w: "write_file world_source (asc ''/b/a.txt'') [0x61, 0x62, 0x63]
     = (world_source\<lparr>fs := (fs world_source)(asc ''/b/a.txt'' \<mapsto> File [0x61, 0x62, 0x63] True True)\<rparr>, Inr ())"
    using stat_world_source(3)
    by (simp add: write_file_def stat_world_source c a world_source_paths) (simp add: asc_def)
  have cp: "copy2 world_source (asc ''/s/a.txt'') (asc ''/b/a.txt'')
     = (world_source\<lparr>fs := (fs world_source)(asc ''/b/a.txt'' \<mapsto> File [0x61, 0x62, 0x63] True True)\<rparr>, Inr ())"
    by (simp add: copy2_def stat_world_source w c a)
  show ?thesis
    by (simp add: backup_file_def c world_source_paths join_b_a e cp Let_def)
qed

theorem backup_decision_per_file_witness:
  "basename (path_join (asc ''/s'') (asc ''a.txt'')) \<noteq> MANIFEST_FILE_NAME
   \<and> calculate_file_hash world_source (path_join (asc ''/s'') (asc ''a.txt'')) default_chunk_size
       = Inr (hex_of_words (sha256 [0x61, 0x62, 0x63]))
   \<and> relpath (cwd world_source) (path_join (asc ''/s'') (asc ''a.txt'')) (asc ''/s'') = Inr (asc ''a.txt'')
   \<and> map_of [] (asc ''a.txt'') = (None :: json option)
   \<and> updated_manifest scan_start = JObj []
   \<and> must_copy [] (asc ''a.txt'') (hex_of_words (sha256 [0x61, 0x62, 0x63]))
        (path_exists world_source (path_join (asc ''/b'') (asc ''a.txt'')))
   \<and> process_file (asc ''/s'') (asc ''/b'') (JObj []) (asc ''/s'') (asc ''a.txt'') world_source scan_start
       = (world_source
            \<lparr>fs := (fs world_source)(asc ''/b/a.txt'' \<mapsto> File [0x61, 0x62, 0x63] True True),
             ticks := 1, stdout := [BackupLine (asc ''a.txt'')]\<rparr>,
          Inr \<lparr>updated_manifest =
                 JObj [(asc ''a.txt'',
                        manifest_entry (hex_of_words (sha256 [0x61, 0x62, 0x63])) (asc ''t0'') (asc ''/b/a.txt''))],
               backed_up_files = 1, skipped_files = 0\<rparr>)"
proof -
  have c: "cwd world_source = asc ''/''" by (simp add: world_source_def)
  have n: "basename (path_join (asc ''/s'') (asc ''a.txt'')) \<noteq> MANIFEST_FILE_NAME"
    by (simp add: world_source_paths MANIFEST_FILE_NAME_def) (simp add: asc_def)
  have h: "calculate_file_hash world_source (path_join (asc ''/s'') (asc ''a.txt'')) default_chunk_size
       = Inr (hex_of_words (sha256 [0x61, 0x62, 0x63]))"
    by (simp add: world_source_paths hash_world_source)
  have r: "relpath (cwd world_source) (path_join (asc ''/s'') (asc ''a.txt'')) (asc ''/s'') = Inr (asc ''a.txt'')"
    by (simp add: c world_source_paths)
  have e: "\<forall>e. map_of [] (asc ''a.txt'') = Some e \<longrightarrow> (\<exists>v. subscript e (asc ''hash'') = Inr v)"
    by simp
  have u: "updated_manifest scan_start = JObj []" by (simp add: scan_start_def)
  have m: "must_copy [] (asc ''a.txt'') (hex_of_words (sha256 [0x61, 0x62, 0x63]))
        (path_exists world_source (path_join (asc ''/b'') (asc ''a.txt'')))"
    by (simp add: must_copy_def)
  have b: "backup_file world_source (path_join (asc ''/s'') (asc ''a.txt'')) (asc ''/s'') (asc ''/b'')
   = (world_source\<lparr>fs := (fs world_source)(asc ''/b/a.txt'' \<mapsto> File [0x61, 0x62, 0x63] True True)\<rparr>,
      Inr (asc ''/b/a.txt''))"
    by (simp add: world_source_paths backup_world_source)
  have j: "path_join (asc ''/b'') (asc ''a.txt'') = asc ''/b/a.txt''" by (rule join_b_a)
  have "process_file (asc ''/s'') (asc ''/b'') (JObj []) (asc ''/s'') (asc ''a.txt'') world_source scan_start
       = (world_source
            \<lparr>fs := (fs world_source)(asc ''/b/a.txt'' \<mapsto> File [0x61, 0x62, 0x63] True True),
             ticks := 1, stdout := [BackupLine (asc ''a.txt'')]\<rparr>,
          Inr \<lparr>updated_manifest =
                 JObj [(asc ''a.txt'',
                        manifest_entry (hex_of_words (sha256 [0x61, 0x62, 0x63])) (asc ''t0'') (asc ''/b/a.txt''))],
               backed_up_files = 1, skipped_files = 0\<rparr>)"
    using backup_decision_per_file [OF n h r e u, of "asc ''/b''"] m
    by (simp add: b j print_def scan_start_def) (simp add: world_source_def)
  with n h r u m show ?thesis by simp
qed

section \<open>The two loops as one\<close>

lemma scan_list_append:
  "scan_list sd bd m (xs @ ys) w st
   = (case scan_list sd bd m xs w st of
        (w1, Inl e) \<Rightarrow> (w1, Inl e)
      | (w1, Inr st1) \<Rightarrow> scan_list sd bd m ys w1 st1)"
proof (induction xs arbitrary: w st)
  case Nil
  then show ?case by simp
next
  case (Cons x xs)
  obtain root name where x: "x = (root, name)" by (cases x)
  show ?case
    by (simp add: x Cons.IH split: prod.splits sum.splits)
qed

lemma scan_files_list:
  "scan_files sd bd m root files w st = scan_list sd bd m (map (Pair root) files) w st"
  by (induction files arbitrary: w st) (simp_all split: prod.splits sum.splits)

lemma scan_walk_listed:
  "scan_walk sd bd m triples w st = scan_list sd bd m (listed triples) w st"
proof (induction triples arbitrary: w st)
  case Nil
  then show ?case by (simp add: listed_def)
next
  case (Cons t triples)
  obtain root dirs files where t: "t = (root, dirs, files)" by (cases t)
  have l: "listed ((root, dirs, files) # triples) = map (Pair root) files @ listed triples"
    by (simp add: listed_def)
  show ?case
    by (simp add: l t scan_list_append scan_files_list Cons.IH split: prod.splits sum.splits)
qed

lemma scan_list_unreserved:
  "scan_list sd bd m fls w st = scan_list sd bd m (filter unreserved fls) w st"
proof (induction fls arbitrary: w st)
  case Nil
  then show ?case by simp
next
  case (Cons f fls)
  obtain root name where f: "f = (root, name)" by (cases f)
  show ?case
  proof (cases "unreserved f")
    case True
    then show ?thesis by (simp add: f Cons.IH split: prod.splits sum.splits)
  next
    case False
    then have "process_file sd bd m root name w st = (w, Inr st)"
      by (simp add: f unreserved_def process_file_reserved)
    with False show ?thesis by (simp add: f Cons.IH)
  qed
qed

section \<open>The reserved file name\<close>

text \<open>
  C1 fails as stated on a file named \<open>manifest.json\<close>: it is under the source root, can
  be read, the manifest has no entry for it, and the run neither copies nor counts it.
\<close>

lemma reserved_paths:
  "path_join (asc ''/s'') (asc ''manifest.json'') = asc ''/s/manifest.json''"
  "basename (asc ''/s/manifest.json'') = MANIFEST_FILE_NAME"
  by (simp_all add: path_eval MANIFEST_FILE_NAME_def)

lemma stat_world_reserved:
  "stat world_reserved (asc ''/s/manifest.json'') = Some (File [0x78] True True)"
  "stat world_reserved (asc ''/b'') = Some Dir"
  "stat world_reserved (asc ''/m.json'') = None"
  "stat world_reserved (asc ''/b/manifest.json'') = None"
  "stat world_reserved (asc ''/'') = Some Dir"
  by (simp_all add: stat_def world_reserved_def path_eval)

lemma dumps_empty: "utf8_encode (json_dumps (JObj [])) = Some [0x7B, 0x7D]"
  by (simp add: json_dumps_def asc_def utf8_encode_char_def)

theorem every_file_copied_counterexample:
  "(asc ''/s'', [], [asc ''manifest.json'']) \<in> set (os_walk world_reserved (asc ''/s''))
   \<and> stat world_reserved (path_join (asc ''/s'') (asc ''manifest.json'')) = Some (File [0x78] True True)
   \<and> load_manifest world_reserved (asc ''/m.json'') = (world_reserved, Inr (JObj []))
   \<and> must_copy [] (asc ''manifest.json'') (hex_of_words (sha256 [0x78])) (path_exists world_reserved (asc ''/b/manifest.json''))
   \<and> scan_and_backup world_reserved (asc ''/s'') (asc ''/b'') (asc ''/m.json'')
       = (world_reserved
            \<lparr>fs := (fs world_reserved)(asc ''/m.json'' \<mapsto> File [0x7B, 0x7D] True True),
             stdout := [BackupSummary (asc ''/s'') (asc ''/b'') 0 0 0]\<rparr>,
          Inr ())
   \<and> stat (fst (scan_and_backup world_reserved (asc ''/s'') (asc ''/b'') (asc ''/m.json'')))
        (asc ''/b/manifest.json'') = None"
proof -
  have c: "cwd world_reserved = asc ''/''" by (simp add: world_reserved_def)
  have o: "os_walk world_reserved (asc ''/s'') = [(asc ''/s'', [], [asc ''manifest.json''])]"
    by (simp add: world_reserved_def)
  have l: "load_manifest world_reserved (asc ''/m.json'') = (world_reserved, Inr (JObj []))"
    by (simp add: load_manifest_def path_exists_def stat_world_reserved)
  have e: "ensure_directory world_reserved (asc ''/b'') = (world_reserved, Inr ())"
    by (simp add: ensure_directory_def path_exists_def stat_world_reserved)
  have p: "process_file (asc ''/s'') (asc ''/b'') (JObj []) (asc ''/s'') (asc ''manifest.json'') world_reserved st
      = (world_reserved, Inr st)" for st
    by (rule process_file_reserved) (simp add: reserved_paths)
  have a: "abspath (asc ''/'') (asc ''/m.json'') = asc ''/m.json''"
    "dirname (asc ''/m.json'') = asc ''/''"
    by (simp_all add: path_eval)
  have s: "save_manifest world_reserved (asc ''/m.json'') (JObj [])
      = (world_reserved\<lparr>fs := (fs world_reserved)(asc ''/m.json'' \<mapsto> File [0x7B, 0x7D] True True)\<rparr>, Inr ())"
    using stat_world_reserved(5)
    by (simp add: save_manifest_def dumps_empty write_file_def stat_world_reserved c a) (simp add: asc_def)
  have r: "scan_and_backup world_reserved (asc ''/s'') (asc ''/b'') (asc ''/m.json'')
       = (world_reserved
            \<lparr>fs := (fs world_reserved)(asc ''/m.json'' \<mapsto> File [0x7B, 0x7D] True True),
             stdout := [BackupSummary (asc ''/s'') (asc ''/b'') 0 0 0]\<rparr>,
          Inr ())"
    by (simp add: scan_and_backup_def e l py_copy_def o p s print_def) (simp add: world_reserved_def)
  have n: "stat (fst (scan_and_backup world_reserved (asc ''/s'') (asc ''/b'') (asc ''/m.json'')))
        (asc ''/b/manifest.json'') = None"
    by (simp add: r) (simp add: stat_def world_reserved_def path_eval)
  show ?thesis
    using o l r n by (simp add: reserved_paths stat_world_reserved must_copy_def)
qed

text \<open>
  C10. The guard compares the base name with the constant \<open>manifest.json\<close> and nothing
  else: a run never sees the files of that name (it is the run on the listing without
  them, whatever the manifest and wherever it is stored, so they are not fingerprinted,
  copied or counted), while a file that is the very manifest of the run, under another
  name, goes through the loop like any file: with no entry of its own it is copied and
  counted as backed up.
\<close>

theorem reserved_name_is_the_constant:
  "scan_walk source_dir backup_dir m triples w st
     = scan_list source_dir backup_dir m (filter unreserved (listed triples)) w st
   \<and> (basename (path_join root file_name) = MANIFEST_FILE_NAME
        \<longrightarrow> process_file source_dir backup_dir m root file_name w st = (w, Inr st))
   \<and> (basename (path_join root file_name) \<noteq> MANIFEST_FILE_NAME
        \<and> abspath (cwd w) (path_join root file_name) = abspath (cwd w) manifest_path
        \<and> calculate_file_hash w (path_join root file_name) default_chunk_size = Inr h
        \<and> relpath (cwd w) (path_join root file_name) source_dir = Inr R
        \<and> map_of entries R = None
        \<and> updated_manifest st = JObj updated
        \<longrightarrow> process_file source_dir backup_dir (JObj entries) root file_name w st
              = (case backup_file w (path_join root file_name) source_dir backup_dir of
                   (w1, Inl err) \<Rightarrow> (w1, Inl err)
                 | (w1, Inr copied_to) \<Rightarrow>
                     (print (BackupLine R) (w1\<lparr>ticks := Suc (ticks w1)\<rparr>),
                      Inr (st\<lparr>updated_manifest :=
                                JObj (dict_set updated R (manifest_entry h (clock w1 (ticks w1)) copied_to)),
                              backed_up_files := Suc (backed_up_files st)\<rparr>))))"
proof (intro conjI impI)
  show "scan_walk source_dir backup_dir m triples w st
     = scan_list source_dir backup_dir m (filter unreserved (listed triples)) w st"
    using scan_walk_listed scan_list_unreserved by simp
next
  assume "basename (path_join root file_name) = MANIFEST_FILE_NAME"
  then show "process_file source_dir backup_dir m root file_name w st = (w, Inr st)"
    by (rule process_file_reserved)
next
  assume a: "basename (path_join root file_name) \<noteq> MANIFEST_FILE_NAME
        \<and> abspath (cwd w) (path_join root file_name) = abspath (cwd w) manifest_path
        \<and> calculate_file_hash w (path_join root file_name) default_chunk_size = Inr h
        \<and> relpath (cwd w) (path_join root file_name) source_dir = Inr R
        \<and> map_of entries R = None
        \<and> updated_manifest st = JObj updated"
  then have e: "\<forall>e. map_of entries R = Some e \<longrightarrow> (\<exists>v. subscript e (asc ''hash'') = Inr v)"
    by simp
  from a have m: "must_copy entries R h (path_exists w (path_join backup_dir R))"
    by (simp add: must_copy_def)
  from a process_file_step [OF _ _ _ e, of root file_name w h source_dir st updated backup_dir] m
  show "process_file source_dir backup_dir (JObj entries) root file_name w st
              = (case backup_file w (path_join root file_name) source_dir backup_dir of
                   (w1, Inl err) \<Rightarrow> (w1, Inl err)
                 | (w1, Inr copied_to) \<Rightarrow>
                     (print (BackupLine R) (w1\<lparr>ticks := Suc (ticks w1)\<rparr>),
                      Inr (st\<lparr>updated_manifest :=
                                JObj (dict_set updated R (manifest_entry h (clock w1 (ticks w1)) copied_to)),
                              backed_up_files := Suc (backed_up_files st)\<rparr>)))"
    by simp
qed

lemma inside_paths:
  "path_join (asc ''/s'') (asc ''state.json'') = asc ''/s/state.json''"
  "relpath (asc ''/'') (asc ''/s/state.json'') (asc ''/s'') = Inr (asc ''state.json'')"
  "basename (asc ''/s/state.json'') = asc ''state.json''"
  "dirname (asc ''/b/state.json'') = asc ''/b''"
  "path_join (asc ''/b'') (asc ''state.json'') = asc ''/b/state.json''"
  "abspath (asc ''/'') (asc ''/b/state.json'') = asc ''/b/state.json''"
  "abspath (asc ''/'') (asc ''/s/state.json'') = asc ''/s/state.json''"
  by (simp_all add: path_eval)

lemma stat_world_inside:
  "stat world_inside (asc ''/s/state.json'') = Some (File [0x7B, 0x7D] True True)"
  "stat world_inside (asc ''/b/state.json'') = None"
  "stat world_inside (asc ''/b'') = Some Dir"
  by (simp_all add: stat_def world_inside_def path_eval)

lemma backup_world_inside:
  "backup_file world_inside (asc ''/s/state.json'') (asc ''/s'') (asc ''/b'')
   = (world_inside\<lparr>fs := (fs world_inside)(asc ''/b/state.json'' \<mapsto> File [0x7B, 0x7D] True True)\<rparr>,
      Inr (asc ''/b/state.json''))"
proof -
  have c: "cwd world_inside = asc ''/''" by (simp add: world_inside_def)
  have e: "ensure_directory world_inside (asc ''/b'') = (world_inside, Inr ())"
    by (simp add: ensure_directory_def path_exists_def stat_world_inside)
  have w: "write_file world_inside (asc ''/b/state.json'') [0x7B, 0x7D]
     = (world_inside\<lparr>fs := (fs world_inside)(asc ''/b/state.json'' \<mapsto> File [0x7B, 0x7D] True True)\<rparr>, Inr ())"
    using stat_world_inside(3)
    by (simp add: write_file_def stat_world_inside c inside_paths) (simp add: asc_def)
  have cp: "copy2 world_inside (asc ''/s/state.json'') (asc ''/b/state.json'')
     = (world_inside\<lparr>fs := (fs world_inside)(asc ''/b/state.json'' \<mapsto> File [0x7B, 0x7D] True True)\<rparr>, Inr ())"
    by (simp add: copy2_def stat_world_inside w c inside_paths)
  show ?thesis
    by (simp add: backup_file_def c inside_paths e cp Let_def)
qed

theorem reserved_name_is_the_constant_witness:
  "basename (path_join (asc ''/s'') (asc ''manifest.json'')) = MANIFEST_FILE_NAME
   \<and> process_file (asc ''/s'') (asc ''/b'') (JObj []) (asc ''/s'') (asc ''manifest.json'') world_reserved scan_start
       = (world_reserved, Inr scan_start)
   \<and> basename (path_join (asc ''/s'') (asc ''state.json'')) \<noteq> MANIFEST_FILE_NAME
   \<and> abspath (cwd world_inside) (path_join (asc ''/s'') (asc ''state.json''))
       = abspath (cwd world_inside) (asc ''/s/state.json'')
   \<and> calculate_file_hash world_inside (path_join (asc ''/s'') (asc ''state.json'')) default_chunk_size
       = Inr (hex_of_words (sha256 [0x7B, 0x7D]))
   \<and> relpath (cwd world_inside) (path_join (asc ''/s'') (asc ''state.json'')) (asc ''/s'')
       = Inr (asc ''state.json'')
   \<and> map_of [] (asc ''state.json'') = (None :: json option)
   \<and> updated_manifest scan_start = JObj []
   \<and> process_file (asc ''/s'') (asc ''/b'') (JObj []) (asc ''/s'') (asc ''state.json'') world_inside scan_start
       = (world_inside
            \<lparr>fs := (fs world_inside)(asc ''/b/state.json'' \<mapsto> File [0x7B, 0x7D] True True),
             ticks := 1, stdout := [BackupLine (asc ''state.json'')]\<rparr>,
          Inr \<lparr>updated_manifest =
                 JObj [(asc ''state.json'',
                        manifest_entry (hex_of_words (sha256 [0x7B, 0x7D])) (asc ''t0'') (asc ''/b/state.json''))],
               backed_up_files = 1, skipped_files = 0\<rparr>)"
proof -
  have c: "cwd world_inside = asc ''/''" by (simp add: world_inside_def)
  have r1: "basename (path_join (asc ''/s'') (asc ''manifest.json'')) = MANIFEST_FILE_NAME"
    by (simp add: reserved_paths)
  have n: "basename (path_join (asc ''/s'') (asc ''state.json'')) \<noteq> MANIFEST_FILE_NAME"
    by (simp add: inside_paths MANIFEST_FILE_NAME_def) (simp add: asc_def)
  have a: "abspath (cwd world_inside) (path_join (asc ''/s'') (asc ''state.json''))
       = abspath (cwd world_inside) (asc ''/s/state.json'')"
    by (simp add: inside_paths)
  have h: "calculate_file_hash world_inside (path_join (asc ''/s'') (asc ''state.json'')) default_chunk_size
       = Inr (hex_of_words (sha256 [0x7B, 0x7D]))"
    by (simp add: inside_paths calculate_file_hash_def open_rb_def stat_world_inside hash_loop_feeds_all
      default_chunk_size_def hexdigest_def sha_update_def hashlib_sha256_def)
  have r: "relpath (cwd world_inside) (path_join (asc ''/s'') (asc ''state.json'')) (asc ''/s'')
       = Inr (asc ''state.json'')"
    by (simp add: c inside_paths)
  have u: "updated_manifest scan_start = JObj []" by (simp add: scan_start_def)
  have b: "backup_file world_inside (path_join (asc ''/s'') (asc ''state.json'')) (asc ''/s'') (asc ''/b'')
   = (world_inside\<lparr>fs := (fs world_inside)(asc ''/b/state.json'' \<mapsto> File [0x7B, 0x7D] True True)\<rparr>,
      Inr (asc ''/b/state.json''))"
    by (simp add: inside_paths backup_world_inside)
  note t = reserved_name_is_the_constant
  have p1: "process_file (asc ''/s'') (asc ''/b'') (JObj []) (asc ''/s'') (asc ''manifest.json'') world_reserved scan_start
       = (world_reserved, Inr scan_start)"
    using t [of "asc ''/s''" "asc ''/b''" "JObj []" "[]" world_reserved scan_start "asc ''/s''" "asc ''manifest.json''"] r1
    by blast
  have p2: "process_file (asc ''/s'') (asc ''/b'') (JObj []) (asc ''/s'') (asc ''state.json'') world_inside scan_start
       = (world_inside
            \<lparr>fs := (fs world_inside)(asc ''/b/state.json'' \<mapsto> File [0x7B, 0x7D] True True),
             ticks := 1, stdout := [BackupLine (asc ''state.json'')]\<rparr>,
          Inr \<lparr>updated_manifest =
                 JObj [(asc ''state.json'',
                        manifest_entry (hex_of_words (sha256 [0x7B, 0x7D])) (asc ''t0'') (asc ''/b/state.json''))],
               backed_up_files = 1, skipped_files = 0\<rparr>)"
    using t [of "asc ''/s''" "asc ''/b''" "JObj []" "[]" world_inside scan_start "asc ''/s''" "asc ''state.json''"
        "asc ''/s/state.json''" "hex_of_words (sha256 [0x7B, 0x7D])" "asc ''state.json''" "[]" "[]"]
      n a h r u
    by (simp add: b print_def scan_start_def) (simp add: world_inside_def)
  show ?thesis
    using r1 p1 n a h r u p2 by simp
qed

section \<open>Every outcome of a step of the loop\<close>

lemma progressed_refl [simp]: "progressed w w"
  by (simp add: progressed_def)



lemma stat_ticks [simp]: "stat (w\<lparr>ticks := n\<rparr>) p = stat w p"
  by (simp add: stat_def)

lemma stat_stdout [simp]: "stat (w\<lparr>stdout := n\<rparr>) p = stat w p"
  by (simp add: stat_def)


section \<open>Invariants of the loop\<close>

lemma progressed_print [simp]: "progressed w (print l w') = progressed w w'"
  by (simp add: progressed_def)

lemma progressed_ticks [simp]: "progressed w (w'\<lparr>ticks := n\<rparr>) = progressed w w'"
  by (simp add: progressed_def)









section \<open>The manifest a run saves\<close>

lemma printed_self [simp]: "printed w w = []"
  by (simp add: printed_def)














section \<open>A run that stops at a file it cannot read\<close>















end
